theory Spec2Isabelle
  imports Complex_Main "HOL-Library.Multiset" "HOL-Library.AList" "HOL-Library.Word"
    "HOL-Library.Product_Lexorder"
begin

section \<open>Python values shared by the models\<close>

text \<open>
  The exceptions the modelled code can raise. \<open>SystemExit\<close> is what \<open>sys.exit()\<close>
  raises, \<open>IOError\<close> what opening a missing file does.
\<close>

datatype error =
    KeyError string
  | TypeError
  | ValueError
  | IndexError
  | AttributeError
  | OverflowError
  | ZeroDivisionError
  | SystemExit
  | IOError

text \<open>Sequencing of fallible steps: the first exception ends the computation.\<close>

definition bind_err :: "error + 'a \<Rightarrow> ('a \<Rightarrow> error + 'b) \<Rightarrow> error + 'b" where
  "bind_err m f = (case m of Inl e \<Rightarrow> Inl e | Inr x \<Rightarrow> f x)"

text \<open>
  The hyper-parameter dictionary \<open>self._p\<close> of a model. Only integer and string
  valued entries are read by the code under study (dropout rates and the flag
  \<open>edge.with.entity\<close> are handed on to code outside it).
\<close>

datatype pval = PInt int | PStr string

type_synonym params = "string \<rightharpoonup> pval"

definition p_get :: "params \<Rightarrow> string \<Rightarrow> pval \<Rightarrow> pval" where
  \<comment> \<open>\<open>self._p.get(key, default)\<close>\<close>
  "p_get p k d = (case p k of None \<Rightarrow> d | Some v \<Rightarrow> v)"

section \<open>Fixed-length encoding (\<open>encode_data_instance\<close>)\<close>

text \<open>
  Both classes ask for arrays of \<open>dtype="int32"\<close>. A Python integer is stored in
  such an array through a C \<open>long\<close> of 64 bits: beyond that range the conversion
  raises \<open>OverflowError\<close>, within it the value is cut to its low 32 bits, so that a
  value outside the \<open>int32\<close> range wraps around.
\<close>

type_synonym int32 = "32 word"

definition fits_c_long :: "int \<Rightarrow> bool" where
  "fits_c_long v \<longleftrightarrow> - (2 ^ 63) \<le> v \<and> v < 2 ^ 63"

definition to_int32 :: "int \<Rightarrow> error + int32" where
  "to_int32 v = (if fits_c_long v then Inr (word_of_int v) else Inl OverflowError)"

fun sequence_err :: "(error + 'a) list \<Rightarrow> error + 'a list" where
  "sequence_err [] = Inr []"
| "sequence_err (r # rs) =
     (case r of
        Inl e \<Rightarrow> Inl e
      | Inr x \<Rightarrow> (case sequence_err rs of Inl e \<Rightarrow> Inl e | Inr xs \<Rightarrow> Inr (x # xs)))"

text \<open>
  Modelled from the spec: \<open>keras.preprocessing.sequence.pad_sequences\<close> is a function of
  the Keras library, not of the files under study. The spec says of the encoders that
  ``sequences longer than the configured maximum are truncated, shorter ones
  zero-padded''; the model below follows the library routine as both callers use it
  (\<open>padding='post'\<close>, \<open>truncating='post'\<close>, \<open>dtype="int32"\<close>, fill value 0): an
  array of \<open>len(sequences)\<close> rows of \<open>maxlen\<close> zero cells is allocated, every
  non-empty sequence is cut to \<open>s[:maxlen]\<close>, converted to the array type, checked
  against the cell shape of the first non-empty sequence, and written over the start of
  its row (\<open>x[idx, :len(trunc)] = trunc\<close>).

  A cell is a number for \<open>CharCNNModel\<close> (character indices) and a vector for
  \<open>YihModel\<close> (one trigram vector per token), so the model takes as arguments the
  shape of a cell as the encoder gives it, its conversion to the array type, and the
  zero cell of a shape. \<open>np.asarray\<close> gives a sequence whose cells differ in shape
  the shape \<open>(len(s),)\<close> when no type is asked for, and raises \<open>ValueError\<close>
  when one is.
\<close>

definition cells_shape :: "('b \<Rightarrow> nat list) \<Rightarrow> 'b list \<Rightarrow> nat list option" where
  \<comment> \<open>the shape of the cells of a sequence; \<open>None\<close> when they differ in shape\<close>
  "cells_shape shape_of s =
     (case s of
        [] \<Rightarrow> Some []
      | c # cs \<Rightarrow> if list_all (\<lambda>d. shape_of d = shape_of c) cs then Some (shape_of c) else None)"

definition sample_shape :: "('b \<Rightarrow> nat list) \<Rightarrow> 'b list list \<Rightarrow> nat list" where
  \<comment> \<open>\<open>np.asarray(s).shape[1:]\<close> of the first non-empty sequence, \<open>()\<close> when there is none\<close>
  "sample_shape shape_of sequences =
     (case filter (\<lambda>s. s \<noteq> []) sequences of
        [] \<Rightarrow> []
      | s # _ \<Rightarrow> (case cells_shape shape_of s of None \<Rightarrow> [] | Some shp \<Rightarrow> shp))"

definition assign_prefix :: "'a list \<Rightarrow> 'a list \<Rightarrow> 'a list" where
  \<comment> \<open>\<open>row[:len(trunc)] = trunc\<close>, for \<open>len(trunc) \<le> len(row)\<close>\<close>
  "assign_prefix row trunc = trunc @ drop (length trunc) row"

definition pad_row ::
  "('b \<Rightarrow> nat list) \<Rightarrow> ('b \<Rightarrow> error + 'a) \<Rightarrow> nat list \<Rightarrow> 'a \<Rightarrow> nat \<Rightarrow> 'b list \<Rightarrow> error + 'a list" where
  "pad_row shape_of convert shp zero maxlen s =
     (let row = replicate maxlen zero in
      if s = [] then Inr row
      else
        let trunc = take maxlen s in
        case cells_shape shape_of trunc of
          None \<Rightarrow> Inl ValueError
        | Some shp' \<Rightarrow>
            bind_err (sequence_err (map convert trunc))
              (\<lambda>cells. if shp' \<noteq> shp then Inl ValueError else Inr (assign_prefix row cells)))"

definition pad_sequences ::
  "('b \<Rightarrow> nat list) \<Rightarrow> ('b \<Rightarrow> error + 'a) \<Rightarrow> (nat list \<Rightarrow> 'a) \<Rightarrow> pval \<Rightarrow> 'b list list \<Rightarrow>
     error + 'a list list" where
  "pad_sequences shape_of convert zeros maxlen sequences =
     (case maxlen of
        PStr _ \<Rightarrow> Inl TypeError
      | PInt m \<Rightarrow>
          if m < 0 then Inl ValueError
          else
            let shp = sample_shape shape_of sequences in
            sequence_err (map (pad_row shape_of convert shp (zeros shp) (nat m)) sequences))"

text \<open>Cells of \<open>CharCNNModel\<close>: integers, of shape \<open>()\<close>.\<close>

definition scalar_shape :: "int \<Rightarrow> nat list" where
  "scalar_shape c = []"

definition scalar_zeros :: "nat list \<Rightarrow> int32" where
  "scalar_zeros shp = 0"

text \<open>
  Cells of \<open>YihModel\<close>: the encoder yields integer vectors, of shape \<open>(len(v),)\<close>.
  When every sequence of a call is empty the library allocates cells of shape \<open>()\<close>,
  so a cell of the result is a vector or a number.
\<close>

datatype cell = Scalar int32 | Vector "int32 list"

definition vector_shape :: "int list \<Rightarrow> nat list" where
  "vector_shape v = [length v]"

definition to_vector :: "int list \<Rightarrow> error + cell" where
  "to_vector v = bind_err (sequence_err (map to_int32 v)) (\<lambda>ws. Inr (Vector ws))"

definition cell_zeros :: "nat list \<Rightarrow> cell" where
  "cell_zeros shp = (case shp of [] \<Rightarrow> Scalar 0 | d # _ \<Rightarrow> Vector (replicate d 0))"

text \<open>
  \<open>CharCNNModel.encode_data_instance\<close>. The encoder
  \<open>input_to_indices.encode_by_character\<close> is not among the files under study; it is the
  argument \<open>encode_by_character\<close>, called with the instance, the vocabulary and the
  entry \<open>edge.with.entity\<close> of the parameters (\<open>None\<close> when it is absent, where the
  source passes \<open>False\<close>; \<open>wdaccess.property2label\<close> is a global of its own module).
  It returns the index sequence of the question and one index sequence per candidate
  edge.
\<close>

definition CharCNN_encode_data_instance ::
  "('i \<Rightarrow> 'v \<Rightarrow> pval option \<Rightarrow> int list \<times> int list list) \<Rightarrow> params \<Rightarrow> 'v \<Rightarrow> 'i \<Rightarrow>
     error + (int32 list list \<times> int32 list list)" where
  "CharCNN_encode_data_instance encode_by_character p character2idx instance =
     (let (sentence_ids, edges_ids) =
            encode_by_character instance character2idx (p ''edge.with.entity'') in
      bind_err
        (pad_sequences scalar_shape to_int32 scalar_zeros (p_get p ''max.sent.len'' (PInt 70))
           [sentence_ids])
        (\<lambda>sentence_ids'.
           bind_err
             (pad_sequences scalar_shape to_int32 scalar_zeros (p_get p ''max.sent.len'' (PInt 70))
                edges_ids)
             (\<lambda>edges_ids'. Inr (sentence_ids', edges_ids'))))"

text \<open>
  \<open>YihModel.encode_data_instance\<close>, with \<open>input_to_indices.encode_by_trigram\<close> as an
  argument: it returns one trigram vector per token of the question and, per candidate
  edge, one trigram vector per token of its label.
\<close>

definition Yih_encode_data_instance ::
  "('i \<Rightarrow> 'v \<Rightarrow> int list list \<times> int list list list) \<Rightarrow> params \<Rightarrow> 'v \<Rightarrow> 'i \<Rightarrow>
     error + (cell list list \<times> cell list list)" where
  "Yih_encode_data_instance encode_by_trigram p trigram_vocabulary instance =
     (let (sentence_encoded, edges_encoded) = encode_by_trigram instance trigram_vocabulary in
      bind_err
        (pad_sequences vector_shape to_vector cell_zeros (p_get p ''max.sent.len'' (PInt 10))
           [sentence_encoded])
        (\<lambda>sentence_ids.
           bind_err
             (pad_sequences vector_shape to_vector cell_zeros (p_get p ''max.sent.len'' (PInt 10))
                edges_encoded)
             (\<lambda>edges_ids. Inr (sentence_ids, edges_ids))))"

text \<open>What the spec promises of one sequence: cut after \<open>m\<close> cells, zeros appended.\<close>

definition truncate_or_pad :: "nat \<Rightarrow> 'a \<Rightarrow> 'a list \<Rightarrow> 'a list" where
  "truncate_or_pad m zero s = take m s @ replicate (m - length s) zero"

text \<open>
  The cells of the arrays: an index as a 32-bit integer, a trigram vector as a vector of
  such. The zero cell of a call on trigram sequences whose vectors have \<open>d\<close> entries
  is a zero vector, and the number 0 when every sequence is empty.
\<close>

definition int32_of :: "int \<Rightarrow> int32" where
  "int32_of v = word_of_int v"

definition vector_of :: "int list \<Rightarrow> cell" where
  "vector_of v = Vector (map int32_of v)"

definition yih_zero :: "nat \<Rightarrow> int list list list \<Rightarrow> cell" where
  "yih_zero d seqs = (if list_all (\<lambda>s. s = []) seqs then Scalar 0 else Vector (replicate d 0))"

section \<open>Ranking the candidates (\<open>CharCNNModel.apply_on_instance\<close>)\<close>

subsection \<open>Single precision numbers\<close>

text \<open>
  The embeddings and the scores are arrays of \<open>float32\<close>. A value is a number, one of
  the two infinities, or \<open>NaN\<close>; the two zeros are not told apart, since neither the
  product, the sum nor the comparison of scores does. Every result of an operation is
  rounded to the nearest number of the format (24 significant bits, exponents from -126
  to 127, ties to the even neighbour), and to an infinity from \<open>2 ^ 128\<close> on.
\<close>

datatype float32 = Finite real | PlusInf | MinusInf | NaN

definition pow2 :: "int \<Rightarrow> real" where
  "pow2 e = (if 0 \<le> e then 2 ^ nat e else 1 / 2 ^ nat (- e))"

fun halvings :: "nat \<Rightarrow> real \<Rightarrow> nat" where
  "halvings 0 a = 0"
| "halvings (Suc n) a = (if a < 2 then 0 else Suc (halvings n (a / 2)))"

fun doublings :: "nat \<Rightarrow> real \<Rightarrow> nat" where
  "doublings 0 a = 0"
| "doublings (Suc n) a = (if 1 \<le> a then 0 else Suc (doublings n (2 * a)))"

definition exponent :: "real \<Rightarrow> int" where
  \<comment> \<open>the binary exponent of \<open>a \<ge> 0\<close>, kept between -126 and 128\<close>
  "exponent a = (if 1 \<le> a then int (halvings 128 a) else - int (doublings 126 a))"

definition round_half_even :: "real \<Rightarrow> int" where
  "round_half_even y =
     (let n = \<lfloor>y\<rfloor>; f = y - of_int n in
      if f < 1 / 2 then n else if 1 / 2 < f then n + 1 else if even n then n else n + 1)"

definition round32 :: "real \<Rightarrow> float32" where
  "round32 x =
     (let a = \<bar>x\<bar>;
          q = pow2 (exponent a - 23);
          r = of_int (round_half_even (a / q)) * q
      in if 2 ^ 128 \<le> r then (if x < 0 then MinusInf else PlusInf)
         else Finite (if x < 0 then - r else r))"

definition is_negative :: "float32 \<Rightarrow> bool" where
  "is_negative x = (case x of Finite a \<Rightarrow> a < 0 | MinusInf \<Rightarrow> True | _ \<Rightarrow> False)"

fun fmul :: "float32 \<Rightarrow> float32 \<Rightarrow> float32" where
  "fmul NaN y = NaN"
| "fmul x NaN = NaN"
| "fmul (Finite a) (Finite b) = round32 (a * b)"
| "fmul x y =
     (if x = Finite 0 \<or> y = Finite 0 then NaN
      else if is_negative x = is_negative y then PlusInf else MinusInf)"

fun fadd :: "float32 \<Rightarrow> float32 \<Rightarrow> float32" where
  "fadd NaN y = NaN"
| "fadd x NaN = NaN"
| "fadd (Finite a) (Finite b) = round32 (a + b)"
| "fadd PlusInf MinusInf = NaN"
| "fadd MinusInf PlusInf = NaN"
| "fadd (Finite a) y = y"
| "fadd x y = x"

text \<open>
  The order in which \<open>numpy\<close> sorts: numbers by value, \<open>NaN\<close> after all of them.
  The comparison \<open>\<le>\<close> of the numbers themselves is false as soon as one side is
  \<open>NaN\<close>.
\<close>

definition np_key :: "float32 \<Rightarrow> nat \<times> real" where
  "np_key x = (case x of MinusInf \<Rightarrow> (0, 0) | Finite a \<Rightarrow> (1, a) | PlusInf \<Rightarrow> (2, 0) | NaN \<Rightarrow> (3, 0))"

definition fle :: "float32 \<Rightarrow> float32 \<Rightarrow> bool" where
  "fle x y \<longleftrightarrow> x \<noteq> NaN \<and> y \<noteq> NaN \<and> np_key x \<le> np_key y"

subsection \<open>The method\<close>

text \<open>
  The trained sibling network is the argument \<open>sibling\<close>: at prediction time it maps
  each encoded row to its embedding, row by row, and the embeddings come back as an
  array of \<open>float32\<close>. \<open>np.dot\<close> of a vector with the
  transposed matrix of edge embeddings is one sum of products per edge, accumulated in
  single precision from the first component on, and fails on vectors of different
  lengths.
\<close>

definition as_float32 :: "float32 \<Rightarrow> float32" where
  \<comment> \<open>a value as an array of \<open>float32\<close> holds it\<close>
  "as_float32 x = (case x of Finite a \<Rightarrow> round32 a | _ \<Rightarrow> x)"

definition predict_on_batch ::
  "(int32 list \<Rightarrow> float32 list) \<Rightarrow> int32 list list \<Rightarrow> float32 list list" where
  "predict_on_batch sibling batch = map (\<lambda>row. map as_float32 (sibling row)) batch"

definition dot :: "float32 list \<Rightarrow> float32 list \<Rightarrow> float32" where
  "dot u v = foldl fadd (Finite 0) (map2 fmul u v)"

definition np_dot :: "float32 list \<Rightarrow> float32 list list \<Rightarrow> error + float32 list" where
  \<comment> \<open>\<open>np.dot(u, np.swapaxes(vs, 0, 1))\<close>\<close>
  "np_dot u vs =
     (if list_all (\<lambda>v. length v = length u) vs then Inr (map (dot u) vs) else Inl ValueError)"

text \<open>
  \<open>np.argsort\<close>: the indices of a vector in ascending order of their entries. The
  library's default sort leaves the order of equal entries open; the model takes the
  stable order.
\<close>

definition argsort :: "float32 list \<Rightarrow> nat list" where
  "argsort xs = sort_key (\<lambda>i. np_key (xs ! i)) [0..<length xs]"

definition CharCNN_apply_on_instance ::
  "('i \<Rightarrow> 'v \<Rightarrow> pval option \<Rightarrow> int list \<times> int list list) \<Rightarrow> (int32 list \<Rightarrow> float32 list) \<Rightarrow>
     params \<Rightarrow> 'v \<Rightarrow> 'i \<Rightarrow> error + nat list" where
  "CharCNN_apply_on_instance encode_by_character sibling p character2idx instance =
     bind_err (CharCNN_encode_data_instance encode_by_character p character2idx instance)
       (\<lambda>(tokens_encoded, edges_encoded).
          case predict_on_batch sibling tokens_encoded of
            [] \<Rightarrow> Inl IndexError
          | sentence_embedding # _ \<Rightarrow>
              let edge_embeddings = predict_on_batch sibling edges_encoded in
              bind_err (np_dot sentence_embedding edge_embeddings)
                (\<lambda>predictions. Inr (rev (argsort predictions))))"

text \<open>
  The score of candidate \<open>j\<close> of an instance, in the claim's words: the dot product
  of the embedding of the encoded question with the embedding of the encoded edge.
\<close>

definition candidate_score ::
  "(int32 list \<Rightarrow> float32 list) \<Rightarrow> nat \<Rightarrow> int list \<Rightarrow> int list list \<Rightarrow> nat \<Rightarrow> float32" where
  "candidate_score sibling m s es j =
     dot (map as_float32 (sibling (truncate_or_pad m 0 (map int32_of s))))
         (map as_float32 (sibling (truncate_or_pad m 0 (map int32_of (es ! j)))))"

section \<open>Targets for training (\<open>encode_data_for_training\<close>)\<close>

text \<open>
  Modelled from the spec: \<open>keras.utils.np_utils.to_categorical\<close> is a function of the
  Keras library, not of the files under study; the spec speaks of ``the index of the
  correct one (or a target distribution)'' and of training ``with categorical
  cross-entropy''. The model follows the library routine: the class count is taken
  from the data when the argument is 0 (\<open>if not nb_classes\<close>), a matrix of zeros with
  one row per target is allocated, and \<open>categorical[np.arange(n), y] = 1\<close> sets one
  cell per row, where an index outside \<open>-nb_classes .. nb_classes - 1\<close> raises
  \<open>IndexError\<close> and a negative index counts from the end of the row.
\<close>

definition one_hot :: "nat \<Rightarrow> int \<Rightarrow> error + int list" where
  "one_hot nb t =
     (if - int nb \<le> t \<and> t < int nb
      then Inr ((replicate nb 0)[nat (if t < 0 then t + int nb else t) := 1])
      else Inl IndexError)"

definition np_max :: "int list \<Rightarrow> error + int" where
  "np_max y = (case y of [] \<Rightarrow> Inl ValueError | t # ts \<Rightarrow> Inr (fold max ts t))"

definition to_categorical :: "int list \<Rightarrow> nat \<Rightarrow> error + int list list" where
  "to_categorical y nb_classes =
     bind_err (if nb_classes = 0 then bind_err (np_max y) (\<lambda>mx. Inr (mx + 1))
               else Inr (int nb_classes))
       (\<lambda>nb. if nb < 0 then Inl ValueError
              else sequence_err (map (one_hot (nat nb)) y))"

text \<open>The targets a training batch is returned with: indices as given, or one-hot rows.\<close>

datatype targets = Indices "int list" | Categorical "int list list"

text \<open>
  \<open>encode_data_for_training\<close> of the two classes. The batch encoders
  \<open>input_to_indices.encode_batch_by_character\<close> and \<open>encode_batch_by_trigrams\<close> are
  arguments; they get the instances, the vocabulary, the maximum length and, for
  characters, the entry \<open>edge.with.entity\<close>. An instance is the list of its candidate
  edges, so \<open>len(input_set[0])\<close> is the number of candidates of the first instance.
\<close>

definition CharCNN_encode_data_for_training ::
  "('c list list \<Rightarrow> 'v \<Rightarrow> pval \<Rightarrow> pval option \<Rightarrow> 'm \<times> 'm) \<Rightarrow> params \<Rightarrow> 'v \<Rightarrow>
     'c list list \<times> int list \<Rightarrow> error + ('m \<times> 'm \<times> targets)" where
  "CharCNN_encode_data_for_training encode_batch_by_character p character2idx data_with_targets =
     (let (input_set, targets) = data_with_targets;
          (sentences_matrix, edges_matrix) =
            encode_batch_by_character input_set character2idx
              (p_get p ''max.sent.len'' (PInt 70)) (p ''edge.with.entity'')
      in if p_get p ''loss'' (PStr ''categorical_crossentropy'') = PStr ''categorical_crossentropy''
         then (case input_set of
                 [] \<Rightarrow> Inl IndexError
               | first # _ \<Rightarrow>
                   bind_err (to_categorical targets (length first))
                     (\<lambda>targets'. Inr (sentences_matrix, edges_matrix, Categorical targets')))
         else Inr (sentences_matrix, edges_matrix, Indices targets))"

definition Yih_encode_data_for_training ::
  "('c list list \<Rightarrow> 'v \<Rightarrow> pval \<Rightarrow> 'm \<times> 'm) \<Rightarrow> params \<Rightarrow> 'v \<Rightarrow>
     'c list list \<times> int list \<Rightarrow> error + ('m \<times> 'm \<times> targets)" where
  "Yih_encode_data_for_training encode_batch_by_trigrams p trigram_vocabulary data_with_targets =
     (let (input_set, targets) = data_with_targets;
          (sentences_matrix, edges_matrix) =
            encode_batch_by_trigrams input_set trigram_vocabulary
              (p_get p ''max.sent.len'' (PInt 10))
      in if p_get p ''loss'' (PStr ''categorical_crossentropy'') = PStr ''categorical_crossentropy''
         then (case input_set of
                 [] \<Rightarrow> Inl IndexError
               | first # _ \<Rightarrow>
                   bind_err (to_categorical targets (length first))
                     (\<lambda>targets'. Inr (sentences_matrix, edges_matrix, Categorical targets')))
         else Inr (sentences_matrix, edges_matrix, Indices targets))"

text \<open>
  The one-hot row of width \<open>w\<close> for the index \<open>t\<close>; an index below zero counts
  from the end of the row, as in \<open>row[t] = 1\<close>.
\<close>

definition unit_row :: "nat \<Rightarrow> int \<Rightarrow> int list" where
  "unit_row w t = map (\<lambda>j. if int j = t mod int w then 1 else 0) [0..<w]"

definition in_row :: "nat \<Rightarrow> int \<Rightarrow> bool" where
  \<comment> \<open>the indices \<open>row[t]\<close> accepts for a row of width \<open>w\<close>\<close>
  "in_row w t \<longleftrightarrow> - int w \<le> t \<and> t < int w"

section \<open>The training driver (\<open>train_model.train\<close>)\<close>

subsection \<open>The loaded configuration\<close>

text \<open>
  \<open>utils.load_config\<close> is outside the files under study; its result, the parsed YAML
  document, is the input of the model. A dictionary is an object: a value names it by
  its address, and the heap holds the entries of every dictionary, in insertion order
  and looked up by key. Two places of the document that are one object (an alias in the
  YAML text) have one address and see each other's updates. Lists and scalars are not
  updated by the driver and are plain values. Floating point scalars are left out: the
  driver reads none.
\<close>

type_synonym addr = nat

datatype yaml =
    YNull
  | YBool bool
  | YInt int
  | YStr string
  | YList "yaml list"
  | YDict addr

type_synonym heap = "addr \<Rightarrow> (string \<times> yaml) list"

definition dict_lookup :: "heap \<Rightarrow> addr \<Rightarrow> string \<Rightarrow> yaml option" where
  "dict_lookup h a k = map_of (h a) k"

definition dict_store :: "heap \<Rightarrow> addr \<Rightarrow> string \<Rightarrow> yaml \<Rightarrow> heap" where
  "dict_store h a k v = h(a := AList.update k v (h a))"

definition heap_of :: "(addr \<times> (string \<times> yaml) list) list \<Rightarrow> heap" where
  \<comment> \<open>the heap that holds the listed dictionaries\<close>
  "heap_of ds a = (case map_of ds a of None \<Rightarrow> [] | Some kvs \<Rightarrow> kvs)"

definition dict_get :: "heap \<Rightarrow> addr \<Rightarrow> string \<Rightarrow> yaml \<Rightarrow> yaml" where
  "dict_get h a k d = (case dict_lookup h a k of None \<Rightarrow> d | Some v \<Rightarrow> v)"

fun truthy :: "heap \<Rightarrow> yaml \<Rightarrow> bool" where
  "truthy h YNull = False"
| "truthy h (YBool b) = b"
| "truthy h (YInt n) = (n \<noteq> 0)"
| "truthy h (YStr s) = (s \<noteq> [])"
| "truthy h (YList xs) = (xs \<noteq> [])"
| "truthy h (YDict a) = (h a \<noteq> [])"

definition is_substring :: "string \<Rightarrow> string \<Rightarrow> bool" where
  "is_substring k s = list_ex (\<lambda>i. take (length k) (drop i s) = k) [0..<Suc (length s)]"

fun py_contains :: "string \<Rightarrow> heap \<Rightarrow> yaml \<Rightarrow> error + bool" where
  \<comment> \<open>\<open>k in v\<close> for a string \<open>k\<close>\<close>
  "py_contains k h (YDict a) = Inr (dict_lookup h a k \<noteq> None)"
| "py_contains k h (YList xs) = Inr (YStr k \<in> set xs)"
| "py_contains k h (YStr s) = Inr (is_substring k s)"
| "py_contains k h v = Inl TypeError"

fun py_getitem :: "heap \<Rightarrow> yaml \<Rightarrow> string \<Rightarrow> error + yaml" where
  \<comment> \<open>\<open>v[k]\<close> for a string \<open>k\<close>\<close>
  "py_getitem h (YDict a) k =
     (case dict_lookup h a k of None \<Rightarrow> Inl (KeyError k) | Some v \<Rightarrow> Inr v)"
| "py_getitem h v k = Inl TypeError"

fun py_get :: "heap \<Rightarrow> yaml \<Rightarrow> string \<Rightarrow> yaml \<Rightarrow> error + yaml" where
  \<comment> \<open>\<open>v.get(k, d)\<close>\<close>
  "py_get h (YDict a) k d = Inr (dict_get h a k d)"
| "py_get h v k d = Inl AttributeError"

fun py_setitem :: "heap \<Rightarrow> yaml \<Rightarrow> string \<Rightarrow> yaml \<Rightarrow> error + heap" where
  \<comment> \<open>\<open>v[k] = x\<close>: the heap after the assignment\<close>
  "py_setitem h (YDict a) k x = Inr (dict_store h a k x)"
| "py_setitem h v k x = Inl TypeError"

function py_replace :: "string \<Rightarrow> string \<Rightarrow> string \<Rightarrow> string" where
  \<comment> \<open>\<open>s.replace(old, new)\<close>\<close>
  "py_replace old new s =
     (if old = [] then new @ concat (map (\<lambda>c. c # new) s)
      else if s = [] then []
      else if take (length old) s = old then new @ py_replace old new (drop (length old) s)
      else hd s # py_replace old new (tl s))"
  by pat_completeness auto
termination
  by (relation "measure (\<lambda>(old, new, s). length s)") auto

declare py_replace.simps [simp del]

subsection \<open>Library calls whose outcome the configuration decides\<close>

text \<open>
  \<open>Logger.setLevel\<close> and \<open>Handler.setLevel\<close> accept an integer or one of the level
  names; another string raises \<open>ValueError\<close>, any other value \<open>TypeError\<close>.
\<close>

definition level_names :: "string list" where
  "level_names =
     [''CRITICAL'', ''FATAL'', ''ERROR'', ''WARN'', ''WARNING'', ''INFO'', ''DEBUG'', ''NOTSET'']"

fun check_level :: "yaml \<Rightarrow> error option" where
  "check_level (YInt n) = None"
| "check_level (YBool b) = None"
| "check_level (YStr s) = (if s \<in> set level_names then None else Some ValueError)"
| "check_level v = Some TypeError"

text \<open>
  \<open>np.random.seed\<close> accepts \<open>None\<close>, an integer from 0 to \<open>2 ^ 32 - 1\<close>, or a
  list of such integers that is not empty; an integer outside this range or an empty
  list raises \<open>ValueError\<close>, a value of another type \<open>TypeError\<close>.
\<close>

fun seed_int :: "yaml \<Rightarrow> int option" where
  "seed_int (YInt n) = Some n"
| "seed_int (YBool b) = Some (if b then 1 else 0)"
| "seed_int v = None"

definition in_seed_range :: "yaml \<Rightarrow> bool" where
  "in_seed_range v = (case seed_int v of None \<Rightarrow> False | Some n \<Rightarrow> 0 \<le> n \<and> n < 2 ^ 32)"

fun check_seed :: "yaml \<Rightarrow> error option" where
  "check_seed YNull = None"
| "check_seed (YBool b) = None"
| "check_seed (YInt n) = (if in_seed_range (YInt n) then None else Some ValueError)"
| "check_seed (YList xs) =
     (if xs = [] then Some ValueError
      else if list_ex (\<lambda>x. seed_int x = None) xs then Some TypeError
      else if list_all in_seed_range xs then None
      else Some ValueError)"
| "check_seed v = Some TypeError"

text \<open>
  \<open>logging.FileHandler\<close> opens its file at once and takes a string for its name;
  whether the file can be opened is a matter of the file system and not modelled.
\<close>

fun check_filename :: "yaml \<Rightarrow> error option" where
  "check_filename (YStr s) = None"
| "check_filename v = Some TypeError"

subsection \<open>Effects and state\<close>

text \<open>
  What the driver does to the outside, in the order it does it. Calls into the dataset,
  the model classes, the logging and the knowledge-base modules are events; the values
  they compute are not modelled, and they are taken to return unless said otherwise.
  \<open>Print\<close> carries the format string.
\<close>

datatype event =
    Print string
  | NpRandomSeed yaml
  | LoggerSetLevel yaml
  | LoggerDebug
  | FileHandler yaml
  | ResultsLoggerInfo string
  | WebQuestions yaml
  | GetTrainSampleSize
  | ModelInit string yaml
  | GetTrainingTokens
  | GetQuestionTokens
  | GetPropertySet
  | PrepareModel
  | GetTrainingGenerator yaml
  | GetTrainingSamples
  | GetValidationSamples
  | TrainOnGenerator bool
  | Train bool
  | GetFullValidation
  | GetFullTraining
  | TestOnSilver
  | OpenWrite string
  | JsonDump
  | WdaccessSet string yaml
  | SparqlInit
  | UpdateSparqlClauses
  | GetValidationWithGold
  | Test

text \<open>
  What the driver is given besides the configuration. A class of the package
  \<open>models\<close> is described by whether it is a subclass of \<open>KerasModel\<close> and whether
  its \<open>prepare_model\<close> takes the property set as a second argument. The two classes
  under study are subclasses of \<open>TwinsModel\<close>, taken to be a \<open>KerasModel\<close> (both
  are of \<open>models.qamodel\<close>, which is not among the files), and their
  \<open>prepare_model\<close> takes the training tokens only; the other classes are given by
  name. \<open>train_sample_size\<close> is what \<open>get_train_sample_size()\<close> returns, and
  \<open>validation_size\<close> the number of gold answers \<open>get_validation_with_gold()\<close>
  returns.
\<close>

record model_class =
  is_keras_model :: bool
  takes_property_set :: bool

record env =
  models :: "string \<rightharpoonup> model_class"
  train_sample_size :: yaml
  validation_size :: nat

definition class_of :: "env \<Rightarrow> string \<Rightarrow> model_class option" where
  "class_of e name =
     (if name = ''CharCNNModel'' \<or> name = ''YihModel''
      then Some \<lparr>is_keras_model = True, takes_property_set = False\<rparr>
      else models e name)"

record driver =
  config :: yaml
  heap :: heap
  trace :: "event list"
  results_logger :: bool

type_synonym step = "driver \<Rightarrow> driver \<times> error option"

definition skip :: step where
  "skip s = (s, None)"

definition raise :: "error \<Rightarrow> step" where
  "raise e s = (s, Some e)"

definition emit :: "event \<Rightarrow> step" where
  "emit e s = (s\<lparr>trace := trace s @ [e]\<rparr>, None)"

definition seq :: "step \<Rightarrow> step \<Rightarrow> step" where
  "seq f g s = (case f s of (s', None) \<Rightarrow> g s' | (s', Some e) \<Rightarrow> (s', Some e))"

fun steps :: "step list \<Rightarrow> step" where
  "steps [] = skip"
| "steps (f # fs) = seq f (steps fs)"

definition eval :: "(driver \<Rightarrow> error + 'a) \<Rightarrow> ('a \<Rightarrow> step) \<Rightarrow> step" where
  \<comment> \<open>evaluate an expression; go on with its value, or stop with its exception\<close>
  "eval ex k s = (case ex s of Inl e \<Rightarrow> (s, Some e) | Inr v \<Rightarrow> k v s)"

definition call :: "error option \<Rightarrow> event \<Rightarrow> step" where
  \<comment> \<open>a library call that checks its argument: the exception, or the event\<close>
  "call check ev = (case check of None \<Rightarrow> emit ev | Some x \<Rightarrow> raise x)"

definition cfg :: "string \<Rightarrow> driver \<Rightarrow> error + yaml" where
  \<comment> \<open>\<open>config[a]\<close>\<close>
  "cfg a s = py_getitem (heap s) (config s) a"

definition cfg2 :: "string \<Rightarrow> string \<Rightarrow> driver \<Rightarrow> error + yaml" where
  \<comment> \<open>\<open>config[a][b]\<close>\<close>
  "cfg2 a b s = bind_err (cfg a s) (\<lambda>x. py_getitem (heap s) x b)"

definition get :: "yaml \<Rightarrow> string \<Rightarrow> yaml \<Rightarrow> driver \<Rightarrow> error + yaml" where
  \<comment> \<open>\<open>v.get(k, d)\<close>\<close>
  "get v k d s = py_get (heap s) v k d"

definition set_cfg2 :: "string \<Rightarrow> string \<Rightarrow> yaml \<Rightarrow> step" where
  \<comment> \<open>\<open>config[a][b] = v\<close>, the right-hand side already evaluated\<close>
  "set_cfg2 a b v =
     eval (cfg a) (\<lambda>section.
     eval (\<lambda>s. py_setitem (heap s) section b v) (\<lambda>heap' s.
       (s\<lparr>heap := heap'\<rparr>, None)))"

definition has_validation :: "driver \<Rightarrow> error + bool" where
  \<comment> \<open>\<open>'train_validation' in config['webquestions']['path.to.dataset']\<close>\<close>
  "has_validation s =
     bind_err (cfg2 ''webquestions'' ''path.to.dataset'' s) (py_contains ''train_validation'' (heap s))"

subsection \<open>The statements of \<open>train\<close>, in order\<close>

text \<open>Lines 25--27: without a \<open>training\<close> section, print and \<open>sys.exit()\<close>.\<close>

definition check_training :: step where
  "check_training =
     eval (\<lambda>s. py_contains ''training'' (heap s) (config s)) (\<lambda>present.
       if \<not> present
       then steps [emit (Print ''Training parameters not in the config file!''), raise SystemExit]
       else skip)"

text \<open>
  Lines 29--30: seed the random number generator. The default \<open>{}\<close> of line 29 is a
  new, empty dictionary, on which \<open>get\<close> gives its default 1.
\<close>

definition random_seed :: "driver \<Rightarrow> error + yaml" where
  "random_seed s =
     (case config s of
        YDict a \<Rightarrow>
          (case dict_lookup (heap s) a ''global'' of
             None \<Rightarrow> Inr (YInt 1)
           | Some config_global \<Rightarrow> py_get (heap s) config_global ''random.seed'' (YInt 1))
      | _ \<Rightarrow> Inl AttributeError)"

definition set_seed :: step where
  "set_seed = eval random_seed (\<lambda>seed. call (check_seed seed) (NpRandomSeed seed))"

text \<open>Lines 32--37: the logger and its stream handler.\<close>

definition setup_logger :: step where
  "setup_logger =
     steps [eval (cfg2 ''logger'' ''level'') (\<lambda>level. call (check_level level) (LoggerSetLevel level)),
            eval (cfg2 ''logger'' ''level'') (\<lambda>level. call (check_level level) (LoggerSetLevel level)),
            emit LoggerDebug]"

text \<open>Lines 39--46: the results logger, only when \<open>log.results\<close> is configured.\<close>

definition setup_results_logger :: step where
  "setup_results_logger =
     eval (cfg ''training'') (\<lambda>training.
     eval (\<lambda>s. py_contains ''log.results'' (heap s) training) (\<lambda>present.
       if present
       then eval (cfg2 ''training'' ''log.results'') (\<lambda>filename.
              steps [call (check_filename filename) (FileHandler filename),
                     (\<lambda>s. (s\<lparr>results_logger := True\<rparr>, None)),
                     emit (ResultsLoggerInfo ''{}'')])
       else skip))"

text \<open>Lines 48--51: the dataset is loaded, and two of its figures go into the model's
  parameters. The right-hand side of an assignment is evaluated before its target.\<close>

definition set_max_entity_options :: step where
  "set_max_entity_options =
     eval (cfg ''evaluation'') (\<lambda>evaluation.
     eval (get evaluation ''max.entity.options'' (YInt 3)) (\<lambda>v.
       set_cfg2 ''webquestions'' ''max.entity.options'' v))"

definition load_dataset :: step where
  "load_dataset = eval (cfg ''webquestions'') (\<lambda>section. emit (WebQuestions section))"

definition set_samples_per_epoch :: "env \<Rightarrow> step" where
  "set_samples_per_epoch e =
     steps [emit GetTrainSampleSize,
            set_cfg2 ''model'' ''samples.per.epoch'' (train_sample_size e)]"

definition set_graph_choices :: step where
  "set_graph_choices =
     eval (cfg ''webquestions'') (\<lambda>section.
     eval (get section ''max.negative.samples'' (YInt 30)) (\<lambda>v.
       set_cfg2 ''model'' ''graph.choices'' v))"

text \<open>
  Lines 54--56: vocabulary and network, for a \<open>KerasModel\<close>. The call passes the
  tokens and the property set; a \<open>prepare_model\<close> that takes the tokens only raises
  \<open>TypeError\<close>, after the arguments have been evaluated.
\<close>

definition prepare_model :: "model_class \<Rightarrow> step" where
  "prepare_model c =
     (if is_keras_model c
      then eval (cfg ''model'') (\<lambda>section.
           eval (get section ''vocabulary.with.edgelabels'' (YBool True)) (\<lambda>v.
             steps [(\<lambda>s. emit (if truthy (heap s) v then GetTrainingTokens else GetQuestionTokens) s),
                    emit GetPropertySet,
                    if takes_property_set c then emit PrepareModel else raise TypeError]))
      else skip)"

text \<open>Line 53: the model object, of the class named in the configuration; then lines
  54--56 for it.\<close>

definition construct_model :: "env \<Rightarrow> step" where
  "construct_model e =
     eval (cfg2 ''model'' ''class'') (\<lambda>c.
       case c of
         YStr name \<Rightarrow>
           (case class_of e name of
              None \<Rightarrow> raise AttributeError
            | Some trainablemodel \<Rightarrow>
                eval (cfg ''model'') (\<lambda>parameters.
                  steps [emit (ModelInit name parameters), prepare_model trainablemodel]))
       | _ \<Rightarrow> raise TypeError)"

text \<open>Lines 57--64: training, from a generator or from the whole sample.\<close>

definition validation_samples :: "(bool \<Rightarrow> event) \<Rightarrow> step" where
  \<comment> \<open>the argument \<open>validation_with_targets\<close>, then the call it belongs to\<close>
  "validation_samples training_call =
     eval has_validation (\<lambda>v.
       steps [if v then emit GetValidationSamples else skip, emit (training_call v)])"

definition train_model :: step where
  "train_model =
     eval (cfg ''training'') (\<lambda>training.
     eval (get training ''train.generator'' (YBool False)) (\<lambda>generator s.
       (if truthy (heap s) generator
        then eval (cfg ''model'') (\<lambda>section.
             eval (get section ''batch.size'' (YInt 128)) (\<lambda>batch_size.
               steps [emit (GetTrainingGenerator batch_size),
                      validation_samples TrainOnGenerator]))
        else steps [emit GetTrainingSamples, validation_samples Train]) s))"

text \<open>Lines 65--70: the offline (silver) evaluation.\<close>

definition silver_test_set :: step where
  "silver_test_set =
     eval has_validation (\<lambda>v. emit (if v then GetFullValidation else GetFullTraining))"

definition test_on_silver :: step where
  "test_on_silver = steps [emit TestOnSilver, emit (Print ''Accuracy on silver data: {}'')]"

text \<open>Lines 71--74: the silver predictions are written next to the results log.\<close>

definition dump_silver_predictions :: step where
  "dump_silver_predictions =
     eval (cfg2 ''training'' ''log.results'') (\<lambda>filename.
       case filename of
         YStr path \<Rightarrow>
           steps [emit (OpenWrite (py_replace ''.log'' ''_silver_predictions.log'' path)),
                  emit JsonDump]
       | _ \<Rightarrow> raise AttributeError)"

text \<open>Lines 76--77.\<close>

definition log_silver :: step where
  "log_silver s =
     (if results_logger s then emit (ResultsLoggerInfo ''Accuracy on silver data: {}'') s
      else skip s)"

text \<open>
  Lines 79--93: the evaluation against the knowledge base. Line 89 divides by the
  number of gold answers.
\<close>

definition evaluate_on_wikidata :: "env \<Rightarrow> step" where
  "evaluate_on_wikidata e =
     eval (cfg ''wikidata'') (\<lambda>wikidata.
     eval (get wikidata ''evaluate'' (YBool False)) (\<lambda>evaluate.
     eval (\<lambda>s. if truthy (heap s) evaluate then has_validation s else Inr False) (\<lambda>live.
       if live
       then steps
         [eval (get wikidata ''backend'' (YStr ''http://knowledgebase:8890/sparql''))
            (\<lambda>v. emit (WdaccessSet ''wikidata_url'' v)),
          eval (get wikidata ''restrict.hop'' (YBool False))
            (\<lambda>v. emit (WdaccessSet ''restrict.hop'' v)),
          eval (get wikidata ''timeout'' (YInt 20))
            (\<lambda>v. emit (WdaccessSet ''timeout'' v)),
          emit SparqlInit,
          emit UpdateSparqlClauses,
          emit GetValidationWithGold,
          emit (Print ''Evaluate on {} validation questions.''),
          emit Test,
          if validation_size e = 0 then raise ZeroDivisionError
          else emit (Print ''Successful predictions: {} ({})''),
          emit (Print ''Average f1: {:.4},{:.4},{:.4}''),
          (\<lambda>s. if results_logger s
                then steps [emit (ResultsLoggerInfo ''Successful predictions: {} ({})''),
                            emit (ResultsLoggerInfo ''Average prec, rec, f1: {:.4}, {:.4}, {:.4}'')] s
                else skip s)]
       else skip)))"

text \<open>
  The function \<open>train\<close>, from the loaded configuration: the check of line 25, the
  statements up to the silver evaluation (lines 29--70), and the rest (lines 71--93).
\<close>

definition until_silver :: "env \<Rightarrow> step list" where
  "until_silver e =
     [set_seed, setup_logger, setup_results_logger,
      set_max_entity_options, load_dataset, set_samples_per_epoch e, set_graph_choices,
      construct_model e, train_model, silver_test_set, test_on_silver]"

definition after_silver :: "env \<Rightarrow> step list" where
  "after_silver e = [dump_silver_predictions, log_silver, evaluate_on_wikidata e]"

definition start :: "heap \<Rightarrow> yaml \<Rightarrow> driver" where
  "start h c = \<lparr>config = c, heap = h, trace = [], results_logger = False\<rparr>"

definition train :: "env \<Rightarrow> heap \<Rightarrow> yaml \<Rightarrow> driver \<times> error option" where
  "train e h c = steps (check_training # until_silver e @ after_silver e) (start h c)"

subsection \<open>Notions for reasoning about steps\<close>

text \<open>
  A step is confined to \<open>P\<close> and \<open>Q\<close> when it only appends events that satisfy
  \<open>P\<close> to the trace and only raises exceptions that satisfy \<open>Q\<close>; it preserves
  \<open>I\<close> when \<open>I\<close> holds after it whenever it held before.
\<close>

definition confined :: "(event \<Rightarrow> bool) \<Rightarrow> (error \<Rightarrow> bool) \<Rightarrow> step \<Rightarrow> bool" where
  "confined P Q f \<longleftrightarrow>
     (\<forall>s s' r. f s = (s', r) \<longrightarrow>
        (\<exists>es. trace s' = trace s @ es \<and> list_all P es) \<and> (\<forall>x. r = Some x \<longrightarrow> Q x))"

definition preserves :: "(driver \<Rightarrow> bool) \<Rightarrow> step \<Rightarrow> bool" where
  "preserves I f \<longleftrightarrow> (\<forall>s s' r. I s \<longrightarrow> f s = (s', r) \<longrightarrow> I s')"

text \<open>
  The exceptions the statements after the check of line 25 can raise, and the events
  that are neither the message of line 26 nor the silver test of line 69.
\<close>

definition run_error :: "error \<Rightarrow> bool" where
  "run_error x \<longleftrightarrow>
     (\<exists>k. x = KeyError k) \<or> x = TypeError \<or> x = AttributeError \<or> x = ValueError
     \<or> x = ZeroDivisionError"

definition ordinary :: "event \<Rightarrow> bool" where
  "ordinary ev \<longleftrightarrow>
     ev \<noteq> Print ''Training parameters not in the config file!'' \<and> ev \<noteq> TestOnSilver"

text \<open>
  The state of a run whose configuration is the dictionary at \<open>a\<close>, whose
  \<open>training\<close> section is the dictionary at \<open>t\<close>, without the entry
  \<open>log.results\<close>, and which has created no results logger.
\<close>

definition no_results_log :: "addr \<Rightarrow> addr \<Rightarrow> driver \<Rightarrow> bool" where
  "no_results_log a t s \<longleftrightarrow>
     config s = YDict a
     \<and> dict_lookup (heap s) a ''training'' = Some (YDict t)
     \<and> dict_lookup (heap s) t ''log.results'' = None
     \<and> \<not> results_logger s"

subsection \<open>The order of a complete run\<close>







text \<open>
  The heap after lines 48--51, in terms of the heap \<open>h\<close> the run starts with: the
  dictionaries at \<open>ev\<close>, \<open>wq\<close> and \<open>md\<close> are the sections \<open>evaluation\<close>,
  \<open>webquestions\<close> and \<open>model\<close>.
\<close>

definition configured :: "env \<Rightarrow> heap \<Rightarrow> addr \<Rightarrow> addr \<Rightarrow> addr \<Rightarrow> heap" where
  "configured e h ev wq md =
     (let h1 = dict_store h wq ''max.entity.options'' (dict_get h ev ''max.entity.options'' (YInt 3));
          h2 = dict_store h1 md ''samples.per.epoch'' (train_sample_size e)
      in dict_store h2 md ''graph.choices'' (dict_get h2 wq ''max.negative.samples'' (YInt 30)))"

section \<open>Vocabularies and their JSON artifacts\<close>

subsection \<open>Python values and JSON documents\<close>

text \<open>
  The Python values a vocabulary is made of, and the JSON documents \<open>json.dump\<close> writes
  and \<open>json.load\<close> reads (numbers are integers here: a vocabulary holds no others).
  A dictionary is the list of its items in insertion order; its keys are strings, as the
  characters of a vocabulary are. \<open>PyDefaultDict\<close> is a \<open>defaultdict(int)\<close>.
\<close>

datatype py =
    PyNone
  | PyBool bool
  | PyInt int
  | PyStr string
  | PyList "py list"
  | PyTuple "py list"
  | PyDict "(string \<times> py) list"
  | PyDefaultDict "(string \<times> py) list"

datatype json =
    JNull
  | JBool bool
  | JInt int
  | JStr string
  | JArr "json list"
  | JObj "(string \<times> json) list"

text \<open>
  \<open>json.dump\<close>: lists and tuples both become arrays, and a \<open>defaultdict\<close> is
  written as the dictionary it is.
\<close>

fun dump :: "py \<Rightarrow> json" where
  "dump PyNone = JNull"
| "dump (PyBool b) = JBool b"
| "dump (PyInt i) = JInt i"
| "dump (PyStr s) = JStr s"
| "dump (PyList xs) = JArr (map dump xs)"
| "dump (PyTuple xs) = JArr (map dump xs)"
| "dump (PyDict kvs) = JObj (map (map_prod id dump) kvs)"
| "dump (PyDefaultDict kvs) = JObj (map (map_prod id dump) kvs)"

text \<open>
  \<open>json.load\<close>: an array becomes a list and an object a plain \<open>dict\<close>, filled item by
  item, so that a key met again keeps its place and takes the later value.
\<close>

definition dict_of_items :: "(string \<times> 'v) list \<Rightarrow> (string \<times> 'v) list" where
  "dict_of_items kvs = foldl (\<lambda>d (k, v). AList.update k v d) [] kvs"

fun load :: "json \<Rightarrow> py" where
  "load JNull = PyNone"
| "load (JBool b) = PyBool b"
| "load (JInt i) = PyInt i"
| "load (JStr s) = PyStr s"
| "load (JArr xs) = PyList (map load xs)"
| "load (JObj kvs) = PyDict (dict_of_items (map (map_prod id load) kvs))"

text \<open>The built-ins the two classes apply to a vocabulary.\<close>

fun py_len :: "py \<Rightarrow> error + nat" where
  "py_len (PyStr s) = Inr (length s)"
| "py_len (PyList xs) = Inr (length xs)"
| "py_len (PyTuple xs) = Inr (length xs)"
| "py_len (PyDict kvs) = Inr (length kvs)"
| "py_len (PyDefaultDict kvs) = Inr (length kvs)"
| "py_len v = Inl TypeError"

fun py_not :: "py \<Rightarrow> bool" where
  \<comment> \<open>\<open>not v\<close>\<close>
  "py_not PyNone = True"
| "py_not (PyBool b) = (\<not> b)"
| "py_not (PyInt i) = (i = 0)"
| "py_not (PyStr s) = (s = [])"
| "py_not (PyList xs) = (xs = [])"
| "py_not (PyTuple xs) = (xs = [])"
| "py_not (PyDict kvs) = (kvs = [])"
| "py_not (PyDefaultDict kvs) = (kvs = [])"

fun py_iter :: "py \<Rightarrow> error + py list" where
  \<comment> \<open>the values a \<open>for\<close> loop over \<open>v\<close> runs through\<close>
  "py_iter (PyList xs) = Inr xs"
| "py_iter (PyTuple xs) = Inr xs"
| "py_iter (PyStr s) = Inr (map (\<lambda>c. PyStr [c]) s)"
| "py_iter (PyDict kvs) = Inr (map (\<lambda>kv. PyStr (fst kv)) kvs)"
| "py_iter (PyDefaultDict kvs) = Inr (map (\<lambda>kv. PyStr (fst kv)) kvs)"
| "py_iter v = Inl TypeError"

definition py_tuple :: "py \<Rightarrow> error + py" where
  \<comment> \<open>\<open>tuple(v)\<close>\<close>
  "py_tuple v = bind_err (py_iter v) (\<lambda>xs. Inr (PyTuple xs))"

fun py_items :: "py \<Rightarrow> (string \<times> py) list" where
  \<comment> \<open>the items of a dictionary, which is what \<open>==\<close> compares two dictionaries by\<close>
  "py_items (PyDict kvs) = kvs"
| "py_items (PyDefaultDict kvs) = kvs"
| "py_items v = []"

fun join :: "string \<Rightarrow> string list \<Rightarrow> string" where
  \<comment> \<open>\<open>sep.join(words)\<close>\<close>
  "join sep [] = []"
| "join sep [w] = w"
| "join sep (w # ws) = w @ sep @ join sep ws"

text \<open>The files written so far, each with the document it holds.\<close>

type_synonym files = "string \<rightharpoonup> json"

subsection \<open>The two model classes\<close>

text \<open>
  What the methods under study read and write of a model object: the parameters
  \<open>self._p\<close>, the place \<open>self._save_model_to\<close> and the number \<open>self._model_number\<close>
  its artifacts are named by, and the vocabulary. The network itself belongs to the
  base class \<open>TwinsModel\<close>, which is not among the files under study: its
  \<open>prepare_model\<close> and \<open>load_from_file\<close> are arguments of the models below.
\<close>

record twins =
  self_p :: params
  self_save_model_to :: string
  self_model_number :: string

record charcnn = twins +
  self_character2idx :: py

record yih = twins +
  self_trigram_vocabulary :: py

definition CharCNN_init :: "params \<Rightarrow> string \<Rightarrow> string \<Rightarrow> charcnn" where
  \<comment> \<open>\<open>__init__\<close>: the vocabulary starts as an empty \<open>defaultdict(int)\<close>\<close>
  "CharCNN_init parameters save_model_to model_number =
     \<lparr>self_p = parameters, self_save_model_to = save_model_to,
      self_model_number = model_number, self_character2idx = PyDefaultDict []\<rparr>"

definition Yih_init :: "params \<Rightarrow> string \<Rightarrow> string \<Rightarrow> yih" where
  "Yih_init parameters save_model_to model_number =
     \<lparr>self_p = parameters, self_save_model_to = save_model_to,
      self_model_number = model_number, self_trigram_vocabulary = PyList []\<rparr>"

definition vocabulary_path :: "string \<Rightarrow> 'a twins_scheme \<Rightarrow> string" where
  \<comment> \<open>\<open>self._save_model_to + "<name>_{}.json".format(self._model_number)\<close>\<close>
  "vocabulary_path name m =
     self_save_model_to m @ name @ ''_'' @ self_model_number m @ ''.json''"

text \<open>
  \<open>CharCNNModel.prepare_model\<close>. \<open>input_to_indices.get_character_index\<close> is an
  argument: it gets one string per training sentence.
\<close>

definition CharCNN_prepare_model ::
  "(string list \<Rightarrow> py) \<Rightarrow> (charcnn \<Rightarrow> charcnn) \<Rightarrow> string list list \<Rightarrow> files \<times> charcnn \<Rightarrow>
     error + files \<times> charcnn" where
  "CharCNN_prepare_model get_character_index super_prepare_model train_tokens st =
     (let (fs, m) = st in
      bind_err
        (if py_not (self_character2idx m)
         then let c = get_character_index (map (join '' '') train_tokens) in
              bind_err (py_len c) (\<lambda>size.
                Inr (fs(vocabulary_path ''character2idx'' m \<mapsto> dump c),
                     m\<lparr>self_character2idx := c\<rparr>))
         else Inr (fs, m))
        (\<lambda>(fs', m').
           bind_err (py_len (self_character2idx m')) (\<lambda>size.
             Inr (fs',
                  super_prepare_model
                    (m'\<lparr>self_p := (self_p m')(''vocab.size'' \<mapsto> PInt (int size))\<rparr>)))))"

definition CharCNN_load_from_file ::
  "(string \<Rightarrow> charcnn \<Rightarrow> charcnn) \<Rightarrow> string \<Rightarrow> files \<times> charcnn \<Rightarrow> error + files \<times> charcnn" where
  "CharCNN_load_from_file super_load_from_file path_to_model st =
     (let (fs, m) = st;
          m' = super_load_from_file path_to_model m
      in case fs (vocabulary_path ''character2idx'' m') of
           None \<Rightarrow> Inl IOError
         | Some document \<Rightarrow>
             let c = load document in
             bind_err (py_len c) (\<lambda>size.
               Inr (fs,
                    m'\<lparr>self_character2idx := c,
                       self_p := (self_p m')(''vocab.size'' \<mapsto> PInt (int size))\<rparr>)))"

text \<open>
  \<open>YihModel.prepare_model\<close>. \<open>input_to_indices.string_to_trigrams\<close> is an argument. The
  vocabulary is \<open>list({...})\<close>: the trigrams of all tokens are added to a set in turn,
  and the list takes them in the order in which the interpreter iterates that set. This
  order is the argument \<open>set_order\<close>, a function of the values added: Python fixes it
  only within one interpreter process, since it follows the hashes of the strings, which
  are salted per process.
\<close>

definition Yih_prepare_model ::
  "(py list \<Rightarrow> py list) \<Rightarrow> (string \<Rightarrow> py list) \<Rightarrow> (yih \<Rightarrow> yih) \<Rightarrow> string list list \<Rightarrow>
     files \<times> yih \<Rightarrow> error + files \<times> yih" where
  "Yih_prepare_model set_order string_to_trigrams super_prepare_model train_tokens st =
     (let (fs, m) = st in
      bind_err
        (if py_not (self_trigram_vocabulary m)
         then let v = PyList (set_order (concat (map string_to_trigrams (concat train_tokens)))) in
              bind_err (py_len v) (\<lambda>size.
                Inr (fs(vocabulary_path ''trigram_vocabulary'' m \<mapsto> dump v),
                     m\<lparr>self_trigram_vocabulary := v\<rparr>))
         else Inr (fs, m))
        (\<lambda>(fs', m').
           bind_err (py_len (self_trigram_vocabulary m')) (\<lambda>size.
             Inr (fs',
                  super_prepare_model
                    (m'\<lparr>self_p := (self_p m')(''vocab.size'' \<mapsto> PInt (int size))\<rparr>)))))"

definition Yih_load_from_file ::
  "(string \<Rightarrow> yih \<Rightarrow> yih) \<Rightarrow> string \<Rightarrow> files \<times> yih \<Rightarrow> error + files \<times> yih" where
  "Yih_load_from_file super_load_from_file path_to_model st =
     (let (fs, m) = st;
          m' = super_load_from_file path_to_model m
      in case fs (vocabulary_path ''trigram_vocabulary'' m') of
           None \<Rightarrow> Inl IOError
         | Some document \<Rightarrow>
             bind_err (py_iter (load document)) (\<lambda>ts.
             bind_err (sequence_err (map py_tuple ts)) (\<lambda>tuples.
               Inr (fs,
                    m'\<lparr>self_trigram_vocabulary := PyList tuples,
                       self_p := (self_p m')(''vocab.size'' \<mapsto> PInt (int (length tuples)))\<rparr>))))"

text \<open>
  The values that come back from a JSON document as they went in: no tuple, no
  \<open>defaultdict\<close>, and no key twice in a dictionary.
\<close>

fun json_stable :: "py \<Rightarrow> bool" where
  "json_stable (PyList xs) = list_all json_stable xs"
| "json_stable (PyTuple xs) = False"
| "json_stable (PyDict kvs) = (distinct (map fst kvs) \<and> list_all json_stable (map snd kvs))"
| "json_stable (PyDefaultDict kvs) = False"
| "json_stable v = True"

text \<open>A trigram as \<open>string_to_trigrams\<close> yields it: a tuple of strings.\<close>

fun is_trigram :: "py \<Rightarrow> bool" where
  "is_trigram (PyTuple cs) = list_all (\<lambda>c. case c of PyStr s \<Rightarrow> True | _ \<Rightarrow> False) cs"
| "is_trigram v = False"

text \<open>An iteration order of sets: every value added comes once.\<close>

definition iterates_sets :: "(py list \<Rightarrow> py list) \<Rightarrow> bool" where
  "iterates_sets set_order \<longleftrightarrow> (\<forall>xs. distinct (set_order xs) \<and> set (set_order xs) = set xs)"

section \<open>Properties of the encoders\<close>

lemma sequence_err_map:
  "(\<And>x. x \<in> set xs \<Longrightarrow> f x = Inr (g x)) \<Longrightarrow> sequence_err (map f xs) = Inr (map g xs)"
  by (induction xs) auto

lemma assign_prefix_take:
  "assign_prefix (replicate m z) (map g (take m s)) = truncate_or_pad m z (map g s)"
  by (cases "length s \<le> m") (simp_all add: assign_prefix_def truncate_or_pad_def min_def take_map)

lemma truncate_or_pad_Nil: "truncate_or_pad m z [] = replicate m z"
  by (simp add: truncate_or_pad_def)

lemma length_truncate_or_pad: "length (truncate_or_pad m z s) = m"
  by (simp add: truncate_or_pad_def)

lemma pad_row_ok:
  assumes "s = [] \<or> cells_shape shape_of (take m s) = Some shp"
    and "\<And>c. c \<in> set s \<Longrightarrow> convert c = Inr (g c)"
  shows "pad_row shape_of convert shp z m s = Inr (truncate_or_pad m z (map g s))"
proof (cases "s = []")
  case True
  then show ?thesis by (simp add: pad_row_def truncate_or_pad_Nil)
next
  case False
  have "sequence_err (map convert (take m s)) = Inr (map g (take m s))"
    using assms(2) by (intro sequence_err_map) (auto dest: in_set_takeD)
  with False assms(1) show ?thesis
    by (simp add: pad_row_def Let_def bind_err_def assign_prefix_take)
qed

lemma to_int32_fits: "fits_c_long v \<Longrightarrow> to_int32 v = Inr (int32_of v)"
  by (simp add: to_int32_def int32_of_def)

lemma to_vector_fits: "list_all fits_c_long v \<Longrightarrow> to_vector v = Inr (vector_of v)"
  by (simp add: to_vector_def vector_of_def bind_err_def sequence_err_map to_int32_fits
      list_all_iff)

lemma sample_shape_vectors:
  assumes "\<forall>s \<in> set xs. \<forall>v \<in> set s. length v = d"
  shows "sample_shape vector_shape xs = (if list_all (\<lambda>s. s = []) xs then [] else [d])"
  using assms
proof (induction xs)
  case Nil
  then show ?case by (simp add: sample_shape_def)
next
  case (Cons s xs)
  show ?case
  proof (cases s)
    case Nil
    with Cons show ?thesis by (simp add: sample_shape_def)
  next
    case (Cons v vs)
    with Cons.prems show ?thesis
      by (simp add: sample_shape_def cells_shape_def vector_shape_def list_all_iff)
  qed
qed

lemma cells_shape_vectors:
  assumes "\<forall>v \<in> set s. length v = d" "s \<noteq> []" "0 < m"
  shows "cells_shape vector_shape (take m s) = Some [d]"
proof -
  from assms obtain v vs where s: "s = v # vs" by (cases s) auto
  from \<open>0 < m\<close> obtain m' where m: "m = Suc m'" by (cases m) auto
  have "\<forall>w \<in> set (take m' vs). length w = length v"
    using assms(1) s by (auto dest: in_set_takeD)
  then show ?thesis
    using assms(1) s m by (simp add: cells_shape_def vector_shape_def list_all_iff)
qed

lemma pad_sequences_vectors:
  assumes "\<forall>s \<in> set xs. \<forall>v \<in> set s. length v = d \<and> list_all fits_c_long v" "0 < m"
  shows "pad_sequences vector_shape to_vector cell_zeros (PInt (int m)) xs =
           Inr (map (\<lambda>s. truncate_or_pad m (yih_zero d xs) (map vector_of s)) xs)"
proof -
  from assms(1) have len: "\<forall>s \<in> set xs. \<forall>v \<in> set s. length v = d" by blast
  have z: "cell_zeros (sample_shape vector_shape xs) = yih_zero d xs"
    by (simp add: sample_shape_vectors [OF len] cell_zeros_def yih_zero_def)
  have row: "pad_row vector_shape to_vector (sample_shape vector_shape xs) (yih_zero d xs) m s
               = Inr (truncate_or_pad m (yih_zero d xs) (map vector_of s))"
    if "s \<in> set xs" for s
  proof (rule pad_row_ok)
    show "s = [] \<or> cells_shape vector_shape (take m s) = Some (sample_shape vector_shape xs)"
    proof (cases "s = []")
      case True
      then show ?thesis by simp
    next
      case False
      with that have ne: "\<not> list_all (\<lambda>s. s = []) xs" by (auto simp: list_all_iff)
      have "cells_shape vector_shape (take m s) = Some [d]"
        using cells_shape_vectors [of s d m] len that False assms(2) by simp
      then show ?thesis
        by (simp add: sample_shape_vectors [OF len] ne)
    qed
    show "to_vector c = Inr (vector_of c)" if "c \<in> set s" for c
      using assms(1) \<open>s \<in> set xs\<close> that by (intro to_vector_fits) blast
  qed
  have "sequence_err (map (pad_row vector_shape to_vector (sample_shape vector_shape xs)
            (yih_zero d xs) m) xs)
        = Inr (map (\<lambda>s. truncate_or_pad m (yih_zero d xs) (map vector_of s)) xs)"
    by (rule sequence_err_map) (rule row)
  then show ?thesis
    unfolding pad_sequences_def by (simp add: z)
qed

lemma pad_sequences_scalar:
  assumes "\<forall>s \<in> set xs. list_all fits_c_long s"
  shows "pad_sequences scalar_shape to_int32 scalar_zeros (PInt (int m)) xs =
           Inr (map (\<lambda>s. truncate_or_pad m 0 (map int32_of s)) xs)"
proof -
  have shp: "cells_shape scalar_shape t = Some []" for t
    by (cases t) (simp_all add: cells_shape_def scalar_shape_def list_all_iff)
  have "sample_shape scalar_shape xs = []"
    by (simp add: sample_shape_def shp split: list.splits)
  moreover have "pad_row scalar_shape to_int32 [] 0 m s = Inr (truncate_or_pad m 0 (map int32_of s))"
    if "s \<in> set xs" for s
    using assms that by (intro pad_row_ok) (auto simp: shp list_all_iff intro: to_int32_fits)
  ultimately show ?thesis
    unfolding pad_sequences_def
    by (simp add: scalar_zeros_def sequence_err_map)
qed

lemma sint_int32_of:
  assumes "- (2 ^ 31) \<le> v" "v < 2 ^ 31"
  shows "sint (int32_of v) = v"
  using assms unfolding int32_of_def
  by (simp add: sint_sbintrunc' signed_take_bit_int_eq_self)

text \<open>
  Claim C1. For an instance whose encoded values fit a C \<open>long\<close>,
  \<open>encode_data_instance\<close> of \<open>CharCNNModel\<close> returns one row for the question and
  one row per candidate edge, each the encoder's sequence cut to its first
  \<open>max.sent.len\<close> cells (default 70) with zeros appended up to that length, every
  value stored as a 32-bit integer; \<open>YihModel\<close> does the same with default 10, for a
  positive \<open>max.sent.len\<close> and trigram vectors of one common size. Every row has
  exactly \<open>max.sent.len\<close> cells, and a value within the \<open>int32\<close> range is stored
  as it is.
\<close>

theorem encode_data_instance_fixed_length:
  assumes "p_get p ''max.sent.len'' (PInt 70) = PInt (int m)"
    and "encode_by_character inst c2i (p ''edge.with.entity'') = (s, es)"
    and "list_all fits_c_long s" and "list_all (list_all fits_c_long) es"
    and "p_get q ''max.sent.len'' (PInt 10) = PInt (int k)" and "0 < k"
    and "encode_by_trigram inst' voc = (t, ts)"
    and "list_all (\<lambda>v. length v = d \<and> list_all fits_c_long v) t"
    and "list_all (list_all (\<lambda>v. length v = d \<and> list_all fits_c_long v)) ts"
  shows "CharCNN_encode_data_instance encode_by_character p c2i inst =
           Inr ([truncate_or_pad m 0 (map int32_of s)],
                map (\<lambda>e. truncate_or_pad m 0 (map int32_of e)) es)
       \<and> Yih_encode_data_instance encode_by_trigram q voc inst' =
           Inr ([truncate_or_pad k (yih_zero d [t]) (map vector_of t)],
                map (\<lambda>e. truncate_or_pad k (yih_zero d ts) (map vector_of e)) ts)
       \<and> length (truncate_or_pad n z x) = n
       \<and> (n \<le> length x \<longrightarrow> truncate_or_pad n z x = take n x)
       \<and> (length x \<le> n \<longrightarrow> truncate_or_pad n z x = x @ replicate (n - length x) z)
       \<and> (- (2 ^ 31) \<le> v \<and> v < 2 ^ 31 \<longrightarrow> sint (int32_of v) = v)"
proof -
  have "\<forall>e \<in> set [s]. list_all fits_c_long e" "\<forall>e \<in> set es. list_all fits_c_long e"
    using assms(3,4) by (simp_all add: list_all_iff)
  then have c: "CharCNN_encode_data_instance encode_by_character p c2i inst =
           Inr ([truncate_or_pad m 0 (map int32_of s)],
                map (\<lambda>e. truncate_or_pad m 0 (map int32_of e)) es)"
    using assms(1,2)
    by (simp add: CharCNN_encode_data_instance_def pad_sequences_scalar bind_err_def)
  have "\<forall>e \<in> set [t]. \<forall>v \<in> set e. length v = d \<and> list_all fits_c_long v"
    "\<forall>e \<in> set ts. \<forall>v \<in> set e. length v = d \<and> list_all fits_c_long v"
    using assms(8,9) by (simp_all add: list_all_iff)
  from pad_sequences_vectors [OF this(1) \<open>0 < k\<close>] pad_sequences_vectors [OF this(2) \<open>0 < k\<close>]
  have y: "Yih_encode_data_instance encode_by_trigram q voc inst' =
           Inr ([truncate_or_pad k (yih_zero d [t]) (map vector_of t)],
                map (\<lambda>e. truncate_or_pad k (yih_zero d ts) (map vector_of e)) ts)"
    using assms(5,7)
    by (simp add: Yih_encode_data_instance_def bind_err_def)
  show ?thesis
    using c y sint_int32_of [of v] by (simp add: truncate_or_pad_def)
qed

theorem encode_data_instance_fixed_length_witness:
  "CharCNN_encode_data_instance (\<lambda>i v e. ([1, 2, 3, 4], [[5], [6, 7, 8, 9], []]))
       [''max.sent.len'' \<mapsto> PInt 3] () () =
     Inr ([[1, 2, 3]], [[5, 0, 0], [6, 7, 8], [0, 0, 0]])
   \<and> Yih_encode_data_instance (\<lambda>i v. ([[1, 0], [0, 1], [1, 1]], [[[1, 1]], []]))
       [''max.sent.len'' \<mapsto> PInt 2] () () =
     Inr ([[Vector [1, 0], Vector [0, 1]]],
          [[Vector [1, 1], Vector [0, 0]], [Vector [0, 0], Vector [0, 0]]])
   \<and> sint (int32_of 7) = 7"
  using encode_data_instance_fixed_length
      [where p = "[''max.sent.len'' \<mapsto> PInt 3]" and m = 3
         and encode_by_character = "\<lambda>i v e. ([1, 2, 3, 4], [[5], [6, 7, 8, 9], []])"
         and inst = "()" and c2i = "()" and s = "[1, 2, 3, 4]" and es = "[[5], [6, 7, 8, 9], []]"
         and q = "[''max.sent.len'' \<mapsto> PInt 2]" and k = 2
         and encode_by_trigram = "\<lambda>i v. ([[1, 0], [0, 1], [1, 1]], [[[1, 1]], []])"
         and inst' = "()" and voc = "()"
         and t = "[[1, 0], [0, 1], [1, 1]]" and ts = "[[[1, 1]], []]" and d = 2
         and n = 0 and z = "0::int" and x = "[]" and v = 7]
  by (simp add: p_get_def truncate_or_pad_def yih_zero_def vector_of_def int32_of_def
      fits_c_long_def eval_nat_numeral)

text \<open>
  The claim as it is written fails in three ways. A value outside the \<open>int32\<close> range
  is not kept: the only cell of the question row is \<open>-2147483648\<close> where the encoder
  gave \<open>2147483648\<close>. A value beyond the C \<open>long\<close> ends the call with
  \<open>OverflowError\<close>. And \<open>YihModel\<close> with \<open>max.sent.len\<close> 0 returns no array for
  a question of one token: the empty cut has cells of shape \<open>()\<close>, not the shape of
  a trigram vector, and the library raises \<open>ValueError\<close>.
\<close>

theorem encode_data_instance_counterexample:
  "CharCNN_encode_data_instance (\<lambda>i v e. ([2147483648], []))
       [''max.sent.len'' \<mapsto> PInt 1] () () = Inr ([[int32_of 2147483648]], [])
   \<and> sint (int32_of 2147483648) = - 2147483648
   \<and> CharCNN_encode_data_instance (\<lambda>i v e. ([9223372036854775808], []))
       [''max.sent.len'' \<mapsto> PInt 1] () () = Inl OverflowError
   \<and> Yih_encode_data_instance (\<lambda>i v. ([[1, 0]], []))
       [''max.sent.len'' \<mapsto> PInt 0] () () = Inl ValueError"
  by (simp add: CharCNN_encode_data_instance_def Yih_encode_data_instance_def pad_sequences_def
      pad_row_def sample_shape_def cells_shape_def scalar_shape_def scalar_zeros_def
      vector_shape_def to_int32_def fits_c_long_def int32_of_def assign_prefix_def p_get_def
      bind_err_def)

section \<open>Properties of the ranking\<close>

lemma argsort_perm: "mset (rev (argsort xs)) = mset [0..<length xs]"
  by (simp add: argsort_def)

lemma argsort_sorted: "sorted (map (\<lambda>i. np_key (xs ! i)) (argsort xs))"
  by (simp add: argsort_def)

lemma rev_argsort_antimono:
  assumes "i \<le> j" "j < length xs"
  shows "np_key (xs ! (rev (argsort xs) ! j)) \<le> np_key (xs ! (rev (argsort xs) ! i))"
proof -
  let ?l = "argsort xs"
  have len: "length ?l = length xs" by (simp add: argsort_def)
  have "map (\<lambda>i. np_key (xs ! i)) ?l ! (length xs - Suc j)
          \<le> map (\<lambda>i. np_key (xs ! i)) ?l ! (length xs - Suc i)"
    using assms len by (intro sorted_nth_mono [OF argsort_sorted]) auto
  then show ?thesis
    using assms len by (simp add: rev_nth)
qed

lemma argsort_range: "j < length xs \<Longrightarrow> rev (argsort xs) ! j < length xs"
proof -
  assume "j < length xs"
  then have "j < length (rev (argsort xs))"
    by (simp add: argsort_def)
  then have "rev (argsort xs) ! j \<in> set (rev (argsort xs))"
    by (rule nth_mem)
  moreover have "set (rev (argsort xs)) = {0..<length xs}"
    by (simp add: argsort_def)
  ultimately show ?thesis by simp
qed

text \<open>
  Claim C2. For an instance whose encoding has \<open>n\<close> candidate edges,
  \<open>CharCNNModel.apply_on_instance\<close> returns a permutation of the indices
  \<open>0..n-1\<close>. Along the returned list the score of the candidates, the single
  precision dot product of the sibling network's embedding of the question with its
  embedding of the edge, never increases in the order \<open>numpy\<close> sorts by, in which
  \<open>NaN\<close> stands above every number; when no score is \<open>NaN\<close> the scores
  themselves never increase and the first index returned has a maximal score. The
  sibling network yields embeddings of one length.
\<close>

theorem apply_on_instance_ranks:
  assumes "p_get p ''max.sent.len'' (PInt 70) = PInt (int m)"
    and "encode_by_character inst c2i (p ''edge.with.entity'') = (s, es)"
    and "list_all fits_c_long s" and "list_all (list_all fits_c_long) es"
    and "\<forall>x y. length (sibling x) = length (sibling y)"
  shows "\<exists>r. CharCNN_apply_on_instance encode_by_character sibling p c2i inst = Inr r
           \<and> mset r = mset [0..<length es]
           \<and> (\<forall>i j. i \<le> j \<and> j < length es \<longrightarrow>
                 np_key (candidate_score sibling m s es (r ! j))
                   \<le> np_key (candidate_score sibling m s es (r ! i)))
           \<and> ((\<forall>j < length es. candidate_score sibling m s es j \<noteq> NaN) \<longrightarrow>
                 (\<forall>i j. i \<le> j \<and> j < length es \<longrightarrow>
                    fle (candidate_score sibling m s es (r ! j))
                        (candidate_score sibling m s es (r ! i)))
               \<and> (\<forall>j < length es.
                    fle (candidate_score sibling m s es j) (candidate_score sibling m s es (hd r))))"
proof -
  let ?pad = "\<lambda>e. truncate_or_pad m 0 (map int32_of e)"
  let ?emb = "\<lambda>row. map as_float32 (sibling row)"
  let ?q = "?emb (?pad s)"
  let ?preds = "map (dot ?q) (map ?emb (map ?pad es))"
  let ?r = "rev (argsort ?preds)"
  let ?score = "candidate_score sibling m s es"
  have "\<forall>e \<in> set [s]. list_all fits_c_long e" "\<forall>e \<in> set es. list_all fits_c_long e"
    using assms(3,4) by (simp_all add: list_all_iff)
  then have enc: "CharCNN_encode_data_instance encode_by_character p c2i inst =
           Inr ([?pad s], map ?pad es)"
    using assms(1,2)
    by (simp add: CharCNN_encode_data_instance_def pad_sequences_scalar bind_err_def)
  have dims: "list_all (\<lambda>v. length v = length ?q) (map ?emb (map ?pad es))"
    using assms(5) by (simp add: list_all_iff)
  have run: "CharCNN_apply_on_instance encode_by_character sibling p c2i inst = Inr ?r"
    using dims
    by (simp add: CharCNN_apply_on_instance_def enc bind_err_def predict_on_batch_def np_dot_def
        del: map_map)
  have len: "length ?preds = length es" by simp
  have score: "?score k = ?preds ! k" if "k < length es" for k
    using that by (simp add: candidate_score_def)
  have perm: "mset ?r = mset [0..<length es]"
    using argsort_perm [of ?preds] by (simp only: len)
  have range: "?r ! j < length es" if "j < length es" for j
    using argsort_range [of j ?preds] that by (simp only: len)
  have lr: "length ?r = length es"
    using perm by (metis length_upt minus_nat.diff_0 size_mset)
  have mono: "np_key (?score (?r ! j)) \<le> np_key (?score (?r ! i))"
    if "i \<le> j" "j < length es" for i j
  proof -
    have "np_key (?preds ! (?r ! j)) \<le> np_key (?preds ! (?r ! i))"
      using rev_argsort_antimono [of i j ?preds] that by (simp only: len)
    moreover have "i < length es" using that by simp
    ultimately show ?thesis
      using that range by (simp only: score)
  qed
  have best: "np_key (?score j) \<le> np_key (?score (hd ?r))" if "j < length es" for j
  proof -
    have "j \<in> set ?r"
      using perm that by (metis atLeastLessThan_iff set_upt mset_eq_setD zero_le)
    then obtain k where k: "k < length ?r" "?r ! k = j"
      by (metis in_set_conv_nth)
    have "?r \<noteq> []" using k by auto
    then have "hd ?r = ?r ! 0" by (simp add: hd_conv_nth)
    moreover have "np_key (?score (?r ! k)) \<le> np_key (?score (?r ! 0))"
      using mono [of 0 k] k lr by simp
    ultimately show ?thesis using k by simp
  qed
  have numbers: "(\<forall>i j. i \<le> j \<and> j < length es \<longrightarrow> fle (?score (?r ! j)) (?score (?r ! i)))
               \<and> (\<forall>j < length es. fle (?score j) (?score (hd ?r)))"
    if nan: "\<forall>j < length es. ?score j \<noteq> NaN"
  proof (intro conjI allI impI)
    fix i j assume ij: "i \<le> j \<and> j < length es"
    then have "?r ! j < length es" "?r ! i < length es"
      using range by simp_all
    with nan mono [of i j] ij show "fle (?score (?r ! j)) (?score (?r ! i))"
      by (simp add: fle_def)
  next
    fix j assume j: "j < length es"
    then have "?r \<noteq> []" using lr by auto
    then have "hd ?r = ?r ! 0" by (simp add: hd_conv_nth)
    moreover have "0 < length es" using j by (cases es) simp_all
    then have "?r ! 0 < length es" by (rule range)
    ultimately have "hd ?r < length es" by (simp only:)
    with nan best [OF j] j show "fle (?score j) (?score (hd ?r))"
      by (simp add: fle_def)
  qed
  have ordered: "\<forall>i j. i \<le> j \<and> j < length es \<longrightarrow>
                 np_key (?score (?r ! j)) \<le> np_key (?score (?r ! i))"
  proof (intro allI impI)
    fix i j assume "i \<le> j \<and> j < length es"
    then have "i \<le> j" "j < length es" by simp_all
    then show "np_key (?score (?r ! j)) \<le> np_key (?score (?r ! i))" by (rule mono)
  qed
  have free: "(\<forall>j < length es. ?score j \<noteq> NaN) \<longrightarrow>
                 (\<forall>i j. i \<le> j \<and> j < length es \<longrightarrow> fle (?score (?r ! j)) (?score (?r ! i)))
               \<and> (\<forall>j < length es. fle (?score j) (?score (hd ?r)))"
    using numbers by (rule impI)
  show ?thesis
    by (intro exI [of _ ?r] conjI) (fact run perm ordered free)+
qed

theorem apply_on_instance_ranks_witness:
  "\<exists>r. CharCNN_apply_on_instance (\<lambda>i v e. ([2], [[1], [3], [2]]))
           (\<lambda>row. if hd row = 1 then [Finite 1, Finite 1]
                   else if hd row = 3 then [Finite 3, Finite 1] else [Finite 2, Finite 1])
           [''max.sent.len'' \<mapsto> PInt 2] () () = Inr r
      \<and> r = [1, 2, 0]
      \<and> mset r = mset [0..<3]
      \<and> fle (candidate_score (\<lambda>row. if hd row = 1 then [Finite 1, Finite 1]
                   else if hd row = 3 then [Finite 3, Finite 1] else [Finite 2, Finite 1])
                2 [2] [[1], [3], [2]] 2)
             (candidate_score (\<lambda>row. if hd row = 1 then [Finite 1, Finite 1]
                   else if hd row = 3 then [Finite 3, Finite 1] else [Finite 2, Finite 1])
                2 [2] [[1], [3], [2]] (hd r))"
proof -
  let ?sib = "\<lambda>row :: int32 list. if hd row = 1 then [Finite 1, Finite 1]
                   else if hd row = 3 then [Finite 3, Finite 1] else [Finite 2, Finite 1]"
  let ?enc = "\<lambda>(i :: unit) (v :: unit) (e :: pval option). ([2 :: int], [[1], [3], [2 :: int]])"
  let ?score = "candidate_score ?sib 2 [2] [[1], [3], [2]]"
  have run: "CharCNN_apply_on_instance ?enc ?sib [''max.sent.len'' \<mapsto> PInt 2] () () = Inr [1, 2, 0]"
    by code_simp
  have scores: "?score 0 = Finite 3" "?score 1 = Finite 7" "?score 2 = Finite 5"
    by code_simp+
  have number: "\<forall>j < length [[1], [3], [2 :: int]]. ?score j \<noteq> NaN"
    using scores by (auto simp: less_Suc_eq numeral_2_eq_2)
  have h1: "p_get [''max.sent.len'' \<mapsto> PInt 2] ''max.sent.len'' (PInt 70) = PInt (int 2)"
    by (simp add: p_get_def)
  have h2: "?enc () () ([''max.sent.len'' \<mapsto> PInt 2] ''edge.with.entity'') = ([2], [[1], [3], [2]])"
    by simp
  have h3: "list_all fits_c_long [2]" "list_all (list_all fits_c_long) [[1], [3], [2]]"
    by (simp_all add: fits_c_long_def)
  have h4: "\<forall>x y. length (?sib x) = length (?sib y)"
    by simp
  from apply_on_instance_ranks
    [where encode_by_character = ?enc and sibling = ?sib and inst = "()" and c2i = "()"
       and p = "[''max.sent.len'' \<mapsto> PInt 2]" and m = 2 and s = "[2]"
       and es = "[[1], [3], [2]]", OF h1 h2 h3 h4]
  obtain r
    where r: "CharCNN_apply_on_instance ?enc ?sib [''max.sent.len'' \<mapsto> PInt 2] () () = Inr r"
      "mset r = mset [0..<length [[1], [3], [2 :: int]]]"
      "(\<forall>j < length [[1], [3], [2 :: int]]. ?score j \<noteq> NaN) \<longrightarrow>
         (\<forall>i j. i \<le> j \<and> j < length [[1], [3], [2 :: int]] \<longrightarrow> fle (?score (r ! j)) (?score (r ! i)))
       \<and> (\<forall>j < length [[1], [3], [2 :: int]]. fle (?score j) (?score (hd r)))"
    by (elim exE conjE)
  from r(3) number have "\<forall>j < length [[1], [3], [2 :: int]]. fle (?score j) (?score (hd r))"
    by (elim impE conjE)
  then have best: "fle (?score 2) (?score (hd r))" by simp
  from r(1) run have "r = [1, 2, 0]" by simp
  moreover have l3: "length [[1], [3], [2 :: int]] = 3" by simp
  note r(2) [unfolded l3]
  ultimately show ?thesis using r(1) best by (intro exI [of _ r] conjI)
qed

text \<open>
  The claim as it is written fails when a score is \<open>NaN\<close>. With the embedding
  \<open>[inf]\<close> of the question and the embeddings \<open>[0]\<close> and \<open>[1]\<close> of two
  candidates the scores are \<open>NaN\<close> and \<open>inf\<close>; the method returns the candidate
  with the score \<open>NaN\<close> first, and the score of the other is not below it.
\<close>

theorem apply_on_instance_counterexample:
  "CharCNN_apply_on_instance (\<lambda>i v e. ([2], [[0], [1]]))
       (\<lambda>row. if hd row = 2 then [PlusInf] else if hd row = 1 then [Finite 1] else [Finite 0])
       [''max.sent.len'' \<mapsto> PInt 1] () () = Inr [0, 1]
   \<and> candidate_score
        (\<lambda>row. if hd row = 2 then [PlusInf] else if hd row = 1 then [Finite 1] else [Finite 0])
        1 [2] [[0], [1]] 0 = NaN
   \<and> candidate_score
        (\<lambda>row. if hd row = 2 then [PlusInf] else if hd row = 1 then [Finite 1] else [Finite 0])
        1 [2] [[0], [1]] 1 = PlusInf
   \<and> \<not> fle PlusInf NaN"
  by code_simp

text \<open>
  Rounding decides the order: the embeddings \<open>16777217\<close> and \<open>16777216\<close> of two
  candidates are the same single precision number, their scores are equal, and the
  reversal puts the second candidate first.
\<close>

lemma apply_on_instance_rounds:
  "CharCNN_apply_on_instance (\<lambda>i v e. ([2], [[0], [1]]))
       (\<lambda>row. if hd row = 2 then [Finite 1]
               else if hd row = 0 then [Finite 16777217] else [Finite 16777216])
       [''max.sent.len'' \<mapsto> PInt 1] () () = Inr [1, 0]"
  by code_simp

section \<open>Properties of the training targets\<close>

lemma one_hot_in_row:
  assumes "in_row w t"
  shows "one_hot w t = Inr (unit_row w t)"
proof -
  have m: "t mod int w = (if t < 0 then t + int w else t)"
  proof (cases "t < 0")
    case True
    have "t mod int w = (t + int w) mod int w" by simp
    also have "\<dots> = t + int w"
      using assms True by (intro mod_pos_pos_trivial) (simp_all add: in_row_def)
    finally show ?thesis using True by simp
  next
    case False
    with assms show ?thesis by (simp add: in_row_def)
  qed
  have "(replicate w (0::int))[nat (t mod int w) := 1] =
          map (\<lambda>j. if int j = t mod int w then 1 else 0) [0..<w]"
    using assms by (intro nth_equalityI) (auto simp: nth_list_update m in_row_def)
  then show ?thesis
    using assms by (simp add: one_hot_def unit_row_def m in_row_def)
qed

lemma one_hot_outside: "\<not> in_row w t \<Longrightarrow> one_hot w t = Inl IndexError"
  by (auto simp: one_hot_def in_row_def)

lemma sequence_err_IndexError:
  assumes "\<forall>r \<in> set rs. r = Inl IndexError \<or> (\<exists>x. r = Inr x)" "Inl IndexError \<in> set rs"
  shows "sequence_err rs = Inl IndexError"
  using assms
proof (induction rs)
  case Nil
  then show ?case by simp
next
  case (Cons r rs)
  show ?case
  proof (cases r)
    case (Inl e)
    with Cons.prems show ?thesis by auto
  next
    case (Inr x)
    with Cons.prems have "Inl IndexError \<in> set rs" by auto
    with Cons Inr show ?thesis by simp
  qed
qed

lemma to_categorical_width:
  assumes "0 < w"
  shows "to_categorical y w =
           (if list_all (in_row w) y then Inr (map (unit_row w) y) else Inl IndexError)"
proof (cases "list_all (in_row w) y")
  case True
  then have "sequence_err (map (one_hot w) y) = Inr (map (unit_row w) y)"
    by (intro sequence_err_map one_hot_in_row) (simp add: list_all_iff)
  with True assms show ?thesis by (simp add: to_categorical_def bind_err_def)
next
  case False
  have "\<forall>r \<in> set (map (one_hot w) y). r = Inl IndexError \<or> (\<exists>x. r = Inr x)"
    by (auto simp: one_hot_def)
  moreover have "Inl IndexError \<in> set (map (one_hot w) y)"
    using False one_hot_outside by (force simp: list_all_iff)
  ultimately have "sequence_err (map (one_hot w) y) = Inl IndexError"
    by (rule sequence_err_IndexError)
  with False assms show ?thesis by (simp add: to_categorical_def bind_err_def)
qed

lemma unit_row_one_hot:
  assumes "0 < w"
  shows "length (unit_row w t) = w \<and> sum_list (unit_row w t) = 1"
proof -
  let ?c = "nat (t mod int w)"
  have c: "?c < w" "int ?c = t mod int w"
    using assms by (simp_all add: nat_less_iff)
  have "sum_list (unit_row w t) = (\<Sum>j \<in> set [0..<w]. if int j = t mod int w then 1 else 0)"
    unfolding unit_row_def by (rule sum_list_distinct_conv_sum_set) simp
  also have "\<dots> = (\<Sum>j \<in> {0..<w}. if j = ?c then 1 else 0)"
    using c by (intro sum.cong) auto
  also have "\<dots> = 1"
    using c by simp
  finally show ?thesis by (simp add: unit_row_def)
qed

text \<open>
  Claim C9. With the loss \<open>categorical_crossentropy\<close> (the default) and a batch
  whose first instance has \<open>w > 0\<close> candidates, \<open>encode_data_for_training\<close> of both
  classes turns the targets into one-hot rows of width \<open>w\<close>, whatever the numbers of
  candidates of the later instances are, exactly when every target \<open>t\<close> has
  \<open>-w \<le> t < w\<close>, and raises \<open>IndexError\<close> otherwise; so the conversion is defined
  only if every target is below \<open>w\<close>.
\<close>

theorem encode_data_for_training_one_hot:
  assumes "p_get p ''loss'' (PStr ''categorical_crossentropy'') = PStr ''categorical_crossentropy''"
    and "0 < length first"
    and "encode_batch_by_character (first # rest) c2i (p_get p ''max.sent.len'' (PInt 70))
           (p ''edge.with.entity'') = (sm, em)"
    and "encode_batch_by_trigrams (first # rest) voc (p_get p ''max.sent.len'' (PInt 10)) = (sm', em')"
  shows "CharCNN_encode_data_for_training encode_batch_by_character p c2i (first # rest, targets) =
           (if list_all (in_row (length first)) targets
            then Inr (sm, em, Categorical (map (unit_row (length first)) targets))
            else Inl IndexError)
       \<and> Yih_encode_data_for_training encode_batch_by_trigrams p voc (first # rest, targets) =
           (if list_all (in_row (length first)) targets
            then Inr (sm', em', Categorical (map (unit_row (length first)) targets))
            else Inl IndexError)
       \<and> list_all (\<lambda>row. length row = length first \<and> sum_list row = 1)
           (map (unit_row (length first)) targets)
       \<and> (list_all (in_row (length first)) targets \<longrightarrow>
            (\<forall>t \<in> set targets. t < int (length first)))"
proof (intro conjI)
  show "CharCNN_encode_data_for_training encode_batch_by_character p c2i (first # rest, targets) =
           (if list_all (in_row (length first)) targets
            then Inr (sm, em, Categorical (map (unit_row (length first)) targets))
            else Inl IndexError)"
    using assms(1,3)
    by (simp add: CharCNN_encode_data_for_training_def to_categorical_width [OF assms(2)]
        bind_err_def)
  show "Yih_encode_data_for_training encode_batch_by_trigrams p voc (first # rest, targets) =
           (if list_all (in_row (length first)) targets
            then Inr (sm', em', Categorical (map (unit_row (length first)) targets))
            else Inl IndexError)"
    using assms(1,4)
    by (simp add: Yih_encode_data_for_training_def to_categorical_width [OF assms(2)]
        bind_err_def)
  show "list_all (\<lambda>row. length row = length first \<and> sum_list row = 1)
           (map (unit_row (length first)) targets)"
    using unit_row_one_hot [OF assms(2)] by (simp add: list_all_iff)
  show "list_all (in_row (length first)) targets \<longrightarrow>
            (\<forall>t \<in> set targets. t < int (length first))"
    by (simp add: list_all_iff in_row_def)
qed

theorem encode_data_for_training_one_hot_witness:
  "CharCNN_encode_data_for_training (\<lambda>i v m e. ((), ())) Map.empty ()
       ([[10, 11], [20, 21, 22 :: nat]], [1, -2]) = Inr ((), (), Categorical [[0, 1], [1, 0]])
   \<and> Yih_encode_data_for_training (\<lambda>i v m. ((), ())) Map.empty ()
       ([[10, 11], [20, 21, 22 :: nat]], [1, -2]) = Inr ((), (), Categorical [[0, 1], [1, 0]])
   \<and> CharCNN_encode_data_for_training (\<lambda>i v m e. ((), ())) Map.empty ()
       ([[10, 11], [20, 21, 22 :: nat]], [1, 2]) = Inl IndexError
   \<and> Yih_encode_data_for_training (\<lambda>i v m. ((), ())) Map.empty ()
       ([[10, 11], [20, 21, 22 :: nat]], [1, 2]) = Inl IndexError"
  using encode_data_for_training_one_hot
      [of Map.empty "[10, 11 :: nat]" "\<lambda>i v m e. ((), ())" "[[20, 21, 22]]" "()" "()" "()"
          "\<lambda>i v m. ((), ())" "()" "()" "()" "[1, -2]"]
    encode_data_for_training_one_hot
      [of Map.empty "[10, 11 :: nat]" "\<lambda>i v m e. ((), ())" "[[20, 21, 22]]" "()" "()" "()"
          "\<lambda>i v m. ((), ())" "()" "()" "()" "[1, 2]"]
  by (simp add: p_get_def in_row_def unit_row_def upt_rec)

text \<open>
  The claim as it is written fails twice. A batch whose second instance has more
  candidates (three) than the first (two) is converted, its targets being below two; and
  when the first instance has no candidate the rows are not of width
  \<open>len(input_set[0])\<close>, which is 0, but of the width of the largest target plus one.
\<close>

theorem encode_data_for_training_counterexample:
  "CharCNN_encode_data_for_training (\<lambda>i v m e. ((), ())) Map.empty ()
       ([[10, 11], [20, 21, 22 :: nat]], [1, 0]) = Inr ((), (), Categorical [[0, 1], [1, 0]])
   \<and> Yih_encode_data_for_training (\<lambda>i v m. ((), ())) Map.empty ()
       ([[10, 11], [20, 21, 22 :: nat]], [1, 0]) = Inr ((), (), Categorical [[0, 1], [1, 0]])
   \<and> length [10, 11 :: nat] < length [20, 21, 22 :: nat]
   \<and> CharCNN_encode_data_for_training (\<lambda>i v m e. ((), ())) Map.empty ()
       ([[], [20, 21, 22 :: nat]], [0, 2]) = Inr ((), (), Categorical [[1, 0, 0], [0, 0, 1]])
   \<and> Yih_encode_data_for_training (\<lambda>i v m. ((), ())) Map.empty ()
       ([[], [20, 21, 22 :: nat]], [0, 2]) = Inr ((), (), Categorical [[1, 0, 0], [0, 0, 1]])"
  by (simp add: CharCNN_encode_data_for_training_def Yih_encode_data_for_training_def
      p_get_def to_categorical_def np_max_def one_hot_def bind_err_def eval_nat_numeral)

section \<open>Properties of the training driver\<close>

subsection \<open>Steps of the driver\<close>

lemma seq_None: "f s = (s1, None) \<Longrightarrow> seq f g s = g s1"
  unfolding seq_def by auto

lemma seq_Some: "f s = (s1, Some x) \<Longrightarrow> seq f g s = (s1, Some x)"
  unfolding seq_def by auto

lemma seq_assoc: "seq (seq f g) h s = seq f (seq g h) s"
  unfolding seq_def by (auto split: prod.splits option.splits)

lemma steps_append: "steps (fs @ gs) s = seq (steps fs) (steps gs) s"
proof (induction fs arbitrary: s)
  case Nil
  show ?case by (auto simp: seq_def skip_def)
next
  case (Cons f fs)
  obtain s1 r1 where f: "f s = (s1, r1)" by (cases "f s")
  have "steps ((f # fs) @ gs) s = seq f (steps (fs @ gs)) s" by simp
  also have "\<dots> = seq f (seq (steps fs) (steps gs)) s"
  proof (cases r1)
    case None
    with f Cons [of s1] show ?thesis by (simp add: seq_None)
  next
    case (Some x)
    with f show ?thesis by (simp add: seq_Some)
  qed
  also have "\<dots> = seq (seq f (steps fs)) (steps gs) s" by (simp add: seq_assoc)
  finally show ?case by simp
qed

lemma confinedI:
  assumes "\<And>s s' r. f s = (s', r) \<Longrightarrow> \<exists>es. trace s' = trace s @ es \<and> list_all P es"
    and "\<And>s s' x. f s = (s', Some x) \<Longrightarrow> Q x"
  shows "confined P Q f"
  unfolding confined_def using assms by fast

lemma confinedD1:
  assumes "confined P Q f" "f s = (s', r)"
  shows "\<exists>es. trace s' = trace s @ es \<and> list_all P es"
  using assms unfolding confined_def by fast

lemma confinedD2:
  assumes "confined P Q f" "f s = (s', Some x)"
  shows "Q x"
  using assms unfolding confined_def by fast

lemma confined_skip: "confined P Q skip"
  unfolding confined_def skip_def by auto

lemma confined_raise: "Q x \<Longrightarrow> confined P Q (raise x)"
  unfolding confined_def raise_def by auto

lemma confined_emit: "P ev \<Longrightarrow> confined P Q (emit ev)"
  unfolding confined_def emit_def by auto

lemma confined_update:
  "(\<And>s. trace (u s) = trace s) \<Longrightarrow> confined P Q (\<lambda>s. (u s, None))"
  unfolding confined_def by auto

lemma confined_seq:
  assumes "confined P Q f" "confined P Q g"
  shows "confined P Q (seq f g)"
proof (rule confinedI)
  fix s s' r
  assume run: "seq f g s = (s', r)"
  obtain s1 r1 where f: "f s = (s1, r1)" by (cases "f s")
  from confinedD1 [OF assms(1) f] obtain es1
    where es1: "trace s1 = trace s @ es1" "list_all P es1" by auto
  show "\<exists>es. trace s' = trace s @ es \<and> list_all P es"
  proof (cases r1)
    case None
    with run f have "g s1 = (s', r)" by (simp add: seq_None)
    from confinedD1 [OF assms(2) this] obtain es2
      where "trace s' = trace s1 @ es2" "list_all P es2" by auto
    with es1 have "trace s' = trace s @ (es1 @ es2) \<and> list_all P (es1 @ es2)" by simp
    then show ?thesis by (rule exI)
  next
    case (Some x)
    with run f have "s' = s1" by (simp add: seq_Some)
    with es1 show ?thesis by auto
  qed
next
  fix s s' x
  assume run: "seq f g s = (s', Some x)"
  obtain s1 r1 where f: "f s = (s1, r1)" by (cases "f s")
  show "Q x"
  proof (cases r1)
    case None
    with run f have "g s1 = (s', Some x)" by (simp add: seq_None)
    then show ?thesis by (rule confinedD2 [OF assms(2)])
  next
    case (Some y)
    with run f have "f s = (s', Some x)" by (simp add: seq_Some)
    then show ?thesis by (rule confinedD2 [OF assms(1)])
  qed
qed

lemma confined_steps: "list_all (confined P Q) fs \<Longrightarrow> confined P Q (steps fs)"
proof (induction fs)
  case Nil
  show ?case by (simp add: confined_skip)
next
  case (Cons f fs)
  then show ?case by (simp add: confined_seq)
qed

lemma confined_eval:
  assumes "\<And>s x. ex s = Inl x \<Longrightarrow> Q x" "\<And>v. confined P Q (k v)"
  shows "confined P Q (eval ex k)"
proof (rule confinedI)
  fix s s' r
  assume run: "eval ex k s = (s', r)"
  show "\<exists>es. trace s' = trace s @ es \<and> list_all P es"
  proof (cases "ex s")
    case (Inl x)
    with run have "s' = s" by (simp add: eval_def)
    then show ?thesis by simp
  next
    case (Inr v)
    with run have "k v s = (s', r)" by (simp add: eval_def)
    then show ?thesis by (rule confinedD1 [OF assms(2)])
  qed
next
  fix s s' x
  assume run: "eval ex k s = (s', Some x)"
  show "Q x"
  proof (cases "ex s")
    case (Inl y)
    with run have "y = x" by (simp add: eval_def)
    with Inl show ?thesis by (simp add: assms(1))
  next
    case (Inr v)
    with run have "k v s = (s', Some x)" by (simp add: eval_def)
    then show ?thesis by (rule confinedD2 [OF assms(2)])
  qed
qed

lemma confined_cond:
  assumes "confined P Q f" "confined P Q g"
  shows "confined P Q (\<lambda>s. if b s then f s else g s)"
proof (rule confinedI)
  fix s s' r
  assume "(if b s then f s else g s) = (s', r)"
  then show "\<exists>es. trace s' = trace s @ es \<and> list_all P es"
    using confinedD1 [OF assms(1)] confinedD1 [OF assms(2)] by (cases "b s") simp_all
next
  fix s s' x
  assume "(if b s then f s else g s) = (s', Some x)"
  then show "Q x"
    using confinedD2 [OF assms(1)] confinedD2 [OF assms(2)] by (cases "b s") simp_all
qed


text \<open>Looking into the configuration raises nothing but lookup exceptions.\<close>

lemma run_error_simps [simp]:
  "run_error (KeyError k)" "run_error TypeError" "run_error AttributeError"
  "run_error ValueError" "run_error ZeroDivisionError" "\<not> run_error SystemExit"
  by (simp_all add: run_error_def)

lemma py_getitem_error: "py_getitem h v k = Inl x \<Longrightarrow> run_error x"
  by (cases v) (auto split: option.splits)

lemma py_get_error: "py_get h v k d = Inl x \<Longrightarrow> run_error x"
  by (cases v) auto

lemma py_contains_error: "py_contains k h v = Inl x \<Longrightarrow> run_error x"
  by (cases v) auto

lemma py_setitem_error: "py_setitem h v k y = Inl x \<Longrightarrow> run_error x"
  by (cases v) auto

lemma cfg_error: "cfg a s = Inl x \<Longrightarrow> run_error x"
  by (auto simp: cfg_def dest: py_getitem_error)

lemma cfg2_error: "cfg2 a b s = Inl x \<Longrightarrow> run_error x"
  by (auto simp: cfg2_def bind_err_def split: sum.splits dest: py_getitem_error cfg_error)

lemma get_error: "get v k d s = Inl x \<Longrightarrow> run_error x"
  by (auto simp: get_def dest: py_get_error)

lemma has_validation_error: "has_validation s = Inl x \<Longrightarrow> run_error x"
  by (auto simp: has_validation_def bind_err_def split: sum.splits
      dest: py_contains_error cfg2_error)

lemma random_seed_error: "random_seed s = Inl x \<Longrightarrow> run_error x"
  by (auto simp: random_seed_def split: yaml.splits option.splits dest: py_get_error)

lemma check_level_error: "check_level v = Some x \<Longrightarrow> run_error x"
  by (cases v) (auto split: if_splits)

lemma check_seed_error: "check_seed v = Some x \<Longrightarrow> run_error x"
  by (cases v) (auto split: if_splits)

lemma check_filename_error: "check_filename v = Some x \<Longrightarrow> run_error x"
  by (cases v) auto

lemmas lookup_errors =
  py_getitem_error py_get_error py_contains_error py_setitem_error cfg_error cfg2_error
  get_error has_validation_error random_seed_error

lemma confined_call:
  assumes "P ev" "\<And>x. check = Some x \<Longrightarrow> Q x"
  shows "confined P Q (call check ev)"
  using assms unfolding call_def
  by (cases check) (simp_all add: confined_emit confined_raise)

lemma confined_set_cfg2:
  assumes "\<And>x. run_error x \<Longrightarrow> Q x"
  shows "confined P Q (set_cfg2 a b v)"
  unfolding set_cfg2_def
  by (intro confined_eval confined_update) (auto dest: lookup_errors intro: assms)

text \<open>
  Apart from the message of line 26 and the silver test of line 69, each in its own
  statement, the statements after the check emit ordinary events only, and never raise
  \<open>SystemExit\<close>.
\<close>

lemmas confined_intros =
  confined_eval confined_emit confined_skip confined_steps confined_update confined_cond
  confined_set_cfg2 confined_raise confined_seq confined_call

lemma confined_set_seed: "confined ordinary run_error set_seed"
  unfolding set_seed_def
  by (intro confined_intros) (auto dest: lookup_errors check_seed_error simp: ordinary_def)

lemma confined_setup_logger: "confined ordinary run_error setup_logger"
  unfolding setup_logger_def
  by (intro confined_steps)
    (auto intro!: confined_intros dest: lookup_errors check_level_error simp: ordinary_def)

lemma confined_setup_results_logger: "confined ordinary run_error setup_results_logger"
  unfolding setup_results_logger_def
  by (auto intro!: confined_intros dest: lookup_errors check_filename_error simp: ordinary_def)

lemma confined_set_max_entity_options: "confined ordinary run_error set_max_entity_options"
  unfolding set_max_entity_options_def
  by (auto intro!: confined_intros dest: lookup_errors simp: ordinary_def)

lemma confined_load_dataset: "confined ordinary run_error load_dataset"
  unfolding load_dataset_def
  by (auto intro!: confined_intros dest: lookup_errors simp: ordinary_def)

lemma confined_set_samples_per_epoch: "confined ordinary run_error (set_samples_per_epoch e)"
  unfolding set_samples_per_epoch_def
  by (auto intro!: confined_intros dest: lookup_errors simp: ordinary_def)

lemma confined_set_graph_choices: "confined ordinary run_error set_graph_choices"
  unfolding set_graph_choices_def
  by (auto intro!: confined_intros dest: lookup_errors simp: ordinary_def)

lemma confined_state_emit:
  "(\<And>s. P (ev s)) \<Longrightarrow> confined P Q (\<lambda>s. emit (ev s) s)"
  unfolding confined_def emit_def by auto

lemma confined_prepare_model: "confined ordinary run_error (prepare_model c)"
  unfolding prepare_model_def
  by (auto intro!: confined_intros confined_state_emit dest: lookup_errors simp: ordinary_def)

lemma confined_construct_model: "confined ordinary run_error (construct_model e)"
  unfolding construct_model_def
  by (auto intro!: confined_intros confined_prepare_model dest: lookup_errors
      simp: ordinary_def split: yaml.splits option.splits)

lemma confined_validation_samples:
  "(\<And>v. P (training_call v)) \<Longrightarrow> P GetValidationSamples \<Longrightarrow>
     confined P run_error (validation_samples training_call)"
  unfolding validation_samples_def
  by (auto intro!: confined_intros dest: lookup_errors)

lemma confined_state_cond:
  assumes "confined P Q f" "confined P Q g"
  shows "confined P Q (\<lambda>s. (if b s then f else g) s)"
  using confined_cond [OF assms, of b] by (simp add: if_distrib [of "\<lambda>f. f _"] cong: if_cong)

lemma confined_train_model: "confined ordinary run_error train_model"
  unfolding train_model_def
  by (auto intro!: confined_intros confined_state_cond confined_validation_samples
      dest: lookup_errors simp: ordinary_def)

lemma confined_silver_test_set: "confined ordinary run_error silver_test_set"
  unfolding silver_test_set_def
  by (auto intro!: confined_intros dest: lookup_errors simp: ordinary_def)

lemma confined_dump_silver_predictions: "confined ordinary run_error dump_silver_predictions"
  unfolding dump_silver_predictions_def
  by (auto intro!: confined_intros dest: lookup_errors simp: ordinary_def split: yaml.splits)

lemma log_silver_eq:
  "log_silver =
     (\<lambda>s. if results_logger s then emit (ResultsLoggerInfo ''Accuracy on silver data: {}'') s
          else skip s)"
  by (rule ext) (simp add: log_silver_def)

lemma confined_log_silver: "confined ordinary run_error log_silver"
  unfolding log_silver_eq
  by (auto intro!: confined_intros simp: ordinary_def)

lemma confined_eval_get:
  assumes "\<And>v. confined P run_error (k v)"
  shows "confined P run_error (eval (get d key dflt) k)"
  by (rule confined_eval) (auto dest: get_error intro: assms)

lemma confined_wikidata_calls:
  "confined ordinary run_error
     (steps
       [eval (get wikidata ''backend'' (YStr ''http://knowledgebase:8890/sparql''))
          (\<lambda>v. emit (WdaccessSet ''wikidata_url'' v)),
        eval (get wikidata ''restrict.hop'' (YBool False))
          (\<lambda>v. emit (WdaccessSet ''restrict.hop'' v)),
        eval (get wikidata ''timeout'' (YInt 20))
          (\<lambda>v. emit (WdaccessSet ''timeout'' v)),
        emit SparqlInit,
        emit UpdateSparqlClauses,
        emit GetValidationWithGold,
        emit (Print ''Evaluate on {} validation questions.''),
        emit Test,
        if validation_size e = 0 then raise ZeroDivisionError
        else emit (Print ''Successful predictions: {} ({})''),
        emit (Print ''Average f1: {:.4},{:.4},{:.4}''),
        (\<lambda>s. if results_logger s
              then steps [emit (ResultsLoggerInfo ''Successful predictions: {} ({})''),
                          emit (ResultsLoggerInfo ''Average prec, rec, f1: {:.4}, {:.4}, {:.4}'')] s
              else skip s)])"
  by (intro confined_steps)
    (auto intro!: confined_eval_get confined_emit confined_cond confined_steps confined_skip
      confined_raise simp: ordinary_def)

lemma confined_evaluate_on_wikidata: "confined ordinary run_error (evaluate_on_wikidata e)"
  unfolding evaluate_on_wikidata_def
proof (intro confined_eval)
  fix s x
  assume "cfg ''wikidata'' s = Inl x"
  then show "run_error x" by (rule cfg_error)
next
  fix wikidata :: yaml and s x
  assume "get wikidata ''evaluate'' (YBool False) s = Inl x"
  then show "run_error x" by (rule get_error)
next
  fix evaluate :: yaml and s x
  assume "(if truthy (heap s) evaluate then has_validation s else Inr False) = Inl x"
  then show "run_error x" by (auto split: if_splits dest: has_validation_error)
next
  fix wikidata evaluate :: yaml and live :: bool
  show "confined ordinary run_error
     (if live then steps
       [eval (get wikidata ''backend'' (YStr ''http://knowledgebase:8890/sparql''))
          (\<lambda>v. emit (WdaccessSet ''wikidata_url'' v)),
        eval (get wikidata ''restrict.hop'' (YBool False))
          (\<lambda>v. emit (WdaccessSet ''restrict.hop'' v)),
        eval (get wikidata ''timeout'' (YInt 20))
          (\<lambda>v. emit (WdaccessSet ''timeout'' v)),
        emit SparqlInit,
        emit UpdateSparqlClauses,
        emit GetValidationWithGold,
        emit (Print ''Evaluate on {} validation questions.''),
        emit Test,
        if validation_size e = 0 then raise ZeroDivisionError
        else emit (Print ''Successful predictions: {} ({})''),
        emit (Print ''Average f1: {:.4},{:.4},{:.4}''),
        (\<lambda>s. if results_logger s
              then steps [emit (ResultsLoggerInfo ''Successful predictions: {} ({})''),
                          emit (ResultsLoggerInfo ''Average prec, rec, f1: {:.4}, {:.4}, {:.4}'')] s
              else skip s)]
      else skip)"
    using confined_wikidata_calls [of wikidata e] by (cases live) (simp_all add: confined_skip)
qed

lemma confined_test_on_silver:
  "confined (\<lambda>ev. ev \<noteq> Print ''Training parameters not in the config file!'') Q test_on_silver"
  unfolding test_on_silver_def
  by (auto intro!: confined_intros)

lemma confined_weaken:
  assumes "confined P Q f" "\<And>ev. P ev \<Longrightarrow> P' ev" "\<And>x. Q x \<Longrightarrow> Q' x"
  shows "confined P' Q' f"
proof (rule confinedI)
  fix s s' r
  assume "f s = (s', r)"
  from confinedD1 [OF assms(1) this] obtain es where "trace s' = trace s @ es" "list_all P es"
    by auto
  moreover from this assms(2) have "list_all P' es" by (auto simp: list_all_iff)
  ultimately show "\<exists>es. trace s' = trace s @ es \<and> list_all P' es" by auto
next
  fix s s' x
  assume "f s = (s', Some x)"
  from confinedD2 [OF assms(1) this] show "Q' x" by (rule assms(3))
qed

lemmas confined_before_silver =
  confined_set_seed confined_setup_logger confined_setup_results_logger
  confined_set_max_entity_options confined_load_dataset confined_set_samples_per_epoch
  confined_set_graph_choices confined_construct_model
  confined_train_model confined_silver_test_set

lemmas confined_after_silver =
  confined_dump_silver_predictions confined_log_silver confined_evaluate_on_wikidata

lemma ordinary_not_message:
  "ordinary ev \<Longrightarrow> ev \<noteq> Print ''Training parameters not in the config file!''"
  by (simp add: ordinary_def)

lemma confined_after_check:
  "confined (\<lambda>ev. ev \<noteq> Print ''Training parameters not in the config file!'') run_error
     (steps (until_silver e @ after_silver e))"
proof -
  let ?P = "\<lambda>ev. ev \<noteq> Print ''Training parameters not in the config file!''"
  have w: "confined ?P run_error f" if "confined ordinary run_error f" for f
    using that by (rule confined_weaken) (simp_all add: ordinary_def)
  have "list_all (confined ?P run_error) (until_silver e @ after_silver e)"
    unfolding until_silver_def after_silver_def
    by (simp add: w confined_before_silver confined_after_silver confined_test_on_silver)
  then show ?thesis by (rule confined_steps)
qed

lemma check_training_absent:
  "dict_lookup h a ''training'' = None \<Longrightarrow>
     check_training (start h (YDict a)) =
       (start h (YDict a)\<lparr>trace := [Print ''Training parameters not in the config file!'']\<rparr>,
        Some SystemExit)"
  by (simp add: check_training_def eval_def start_def seq_def emit_def raise_def skip_def)

lemma check_training_present:
  "dict_lookup h a ''training'' = Some t \<Longrightarrow>
     check_training (start h (YDict a)) = (start h (YDict a), None)"
  by (simp add: check_training_def eval_def start_def skip_def)

text \<open>
  Claim C8. When the loaded configuration has no \<open>training\<close> key, \<open>train\<close> prints
  one message and exits: nothing else happens, no dataset, no model, no training, no
  evaluation. When it has the key, the run goes on with the statements after the check;
  it then never exits through \<open>sys.exit\<close> and never prints that message.
\<close>

theorem train_checks_training_section:
  "(''training'' \<notin> fst ` set (h a) \<longrightarrow>
      train e h (YDict a) =
        (start h (YDict a)\<lparr>trace := [Print ''Training parameters not in the config file!'']\<rparr>,
         Some SystemExit))
   \<and> (''training'' \<in> fst ` set (h a) \<longrightarrow>
      train e h (YDict a) = steps (until_silver e @ after_silver e) (start h (YDict a))
      \<and> snd (train e h (YDict a)) \<noteq> Some SystemExit
      \<and> Print ''Training parameters not in the config file!''
            \<notin> set (trace (fst (train e h (YDict a)))))"
proof (intro conjI impI)
  assume "''training'' \<notin> fst ` set (h a)"
  then have "dict_lookup h a ''training'' = None"
    by (simp add: dict_lookup_def map_of_eq_None_iff)
  then show "train e h (YDict a) =
        (start h (YDict a)\<lparr>trace := [Print ''Training parameters not in the config file!'']\<rparr>,
         Some SystemExit)"
    by (simp add: train_def seq_Some check_training_absent)
next
  assume "''training'' \<in> fst ` set (h a)"
  then obtain t where "dict_lookup h a ''training'' = Some t"
    by (cases "dict_lookup h a ''training''") (auto simp: dict_lookup_def map_of_eq_None_iff)
  then have run: "train e h (YDict a) = steps (until_silver e @ after_silver e) (start h (YDict a))"
    by (simp add: train_def seq_None check_training_present)
  then show "train e h (YDict a) = steps (until_silver e @ after_silver e) (start h (YDict a))" .
  obtain s r where sr: "steps (until_silver e @ after_silver e) (start h (YDict a)) = (s, r)"
    by (cases "steps (until_silver e @ after_silver e) (start h (YDict a))")
  from confinedD1 [OF confined_after_check sr] obtain es
    where es: "trace s = trace (start h (YDict a)) @ es"
      "list_all (\<lambda>ev. ev \<noteq> Print ''Training parameters not in the config file!'') es"
    by auto
  have "trace (start h (YDict a)) = []" by (simp add: start_def)
  with es have "Print ''Training parameters not in the config file!'' \<notin> set (trace s)"
    by (auto simp: list_all_iff)
  moreover have "fst (train e h (YDict a)) = s" by (simp add: run sr)
  ultimately show "Print ''Training parameters not in the config file!''
            \<notin> set (trace (fst (train e h (YDict a))))"
    by simp
  show "snd (train e h (YDict a)) \<noteq> Some SystemExit"
  proof
    assume "snd (train e h (YDict a)) = Some SystemExit"
    with run sr have "steps (until_silver e @ after_silver e) (start h (YDict a)) = (s, Some SystemExit)"
      by simp
    from confinedD2 [OF confined_after_check this] show False by simp
  qed
qed

theorem train_checks_training_section_witness:
  "train \<lparr>models = Map.empty, train_sample_size = YInt 0, validation_size = 0\<rparr>
      ((\<lambda>a. [])(0 := [(''model'', YDict 1)])) (YDict 0) =
     (start ((\<lambda>a. [])(0 := [(''model'', YDict 1)])) (YDict 0)
        \<lparr>trace := [Print ''Training parameters not in the config file!'']\<rparr>,
      Some SystemExit)
   \<and> snd (train \<lparr>models = Map.empty, train_sample_size = YInt 0, validation_size = 0\<rparr>
          ((\<lambda>a. [])(0 := [(''training'', YDict 1)])) (YDict 0)) \<noteq> Some SystemExit
   \<and> Print ''Training parameters not in the config file!''
        \<notin> set (trace (fst (train \<lparr>models = Map.empty, train_sample_size = YInt 0,
                                    validation_size = 0\<rparr>
              ((\<lambda>a. [])(0 := [(''training'', YDict 1)])) (YDict 0))))"
proof -
  have a: "''training'' \<notin> fst ` set (((\<lambda>a. [])(0 := [(''model'', YDict 1)])) (0 :: addr))"
    by simp
  have b: "''training'' \<in> fst ` set (((\<lambda>a. [])(0 := [(''training'', YDict 1)])) (0 :: addr))"
    by simp
  from a b
    train_checks_training_section
      [of "(\<lambda>a. [])(0 := [(''model'', YDict 1)])" 0
          "\<lparr>models = Map.empty, train_sample_size = YInt 0, validation_size = 0\<rparr>"]
    train_checks_training_section
      [of "(\<lambda>a. [])(0 := [(''training'', YDict 1)])" 0
          "\<lparr>models = Map.empty, train_sample_size = YInt 0, validation_size = 0\<rparr>"]
  show ?thesis by blast
qed

subsection \<open>A run without \<open>log.results\<close>\<close>

lemma preservesI:
  assumes "\<And>s s' r. I s \<Longrightarrow> f s = (s', r) \<Longrightarrow> I s'"
  shows "preserves I f"
  unfolding preserves_def using assms by fast

lemma preservesD: "preserves I f \<Longrightarrow> I s \<Longrightarrow> f s = (s', r) \<Longrightarrow> I s'"
  unfolding preserves_def by fast

lemma preserves_skip: "preserves I skip"
  unfolding preserves_def skip_def by auto

lemma preserves_raise: "preserves I (raise x)"
  unfolding preserves_def raise_def by auto

lemma preserves_emit: "preserves (no_results_log a t) (emit ev)"
proof (rule preservesI)
  fix s s' r
  assume "no_results_log a t s" "emit ev s = (s', r)"
  then show "no_results_log a t s'"
    by (cases s) (auto simp: emit_def no_results_log_def)
qed

lemma preserves_state_emit: "preserves (no_results_log a t) (\<lambda>s. emit (ev s) s)"
proof (rule preservesI)
  fix s s' r
  assume "no_results_log a t s" "emit (ev s) s = (s', r)"
  then show "no_results_log a t s'"
    by (cases s) (auto simp: emit_def no_results_log_def)
qed

lemma preserves_call: "preserves (no_results_log a t) (call check ev)"
  unfolding call_def by (cases check) (simp_all add: preserves_emit preserves_raise)

lemma preserves_seq:
  assumes "preserves I f" "preserves I g"
  shows "preserves I (seq f g)"
proof (rule preservesI)
  fix s s' r
  assume I: "I s" and run: "seq f g s = (s', r)"
  obtain s1 r1 where f: "f s = (s1, r1)" by (cases "f s")
  from assms(1) I f have I1: "I s1" by (rule preservesD)
  show "I s'"
  proof (cases r1)
    case None
    with run f have "g s1 = (s', r)" by (simp add: seq_None)
    with assms(2) I1 show ?thesis by (rule preservesD)
  next
    case (Some x)
    with run f have "s' = s1" by (simp add: seq_Some)
    with I1 show ?thesis by simp
  qed
qed

lemma preserves_steps: "list_all (preserves I) fs \<Longrightarrow> preserves I (steps fs)"
proof (induction fs)
  case Nil
  show ?case by (simp add: preserves_skip)
next
  case (Cons f fs)
  then show ?case by (simp add: preserves_seq)
qed

lemma preserves_eval:
  assumes "\<And>v. preserves I (k v)"
  shows "preserves I (eval ex k)"
proof (rule preservesI)
  fix s s' r
  assume I: "I s" and run: "eval ex k s = (s', r)"
  show "I s'"
  proof (cases "ex s")
    case (Inl x)
    with run have "s' = s" by (simp add: eval_def)
    with I show ?thesis by simp
  next
    case (Inr v)
    with run have "k v s = (s', r)" by (simp add: eval_def)
    with assms [of v] I show ?thesis by (rule preservesD)
  qed
qed

lemma preserves_cond:
  assumes "preserves I f" "preserves I g"
  shows "preserves I (\<lambda>s. if b s then f s else g s)"
proof (rule preservesI)
  fix s s' r
  assume I: "I s" and run: "(if b s then f s else g s) = (s', r)"
  show "I s'"
  proof (cases "b s")
    case True
    with run have "f s = (s', r)" by simp
    with assms(1) I show ?thesis by (rule preservesD)
  next
    case False
    with run have "g s = (s', r)" by simp
    with assms(2) I show ?thesis by (rule preservesD)
  qed
qed


lemma preserves_state_cond:
  assumes "preserves I f" "preserves I g"
  shows "preserves I (\<lambda>s. (if b s then f else g) s)"
  using preserves_cond [OF assms, of b] by (simp add: if_distrib [of "\<lambda>f. f _"] cong: if_cong)

lemma dict_lookup_store [simp]:
  "dict_lookup (dict_store h a k v) b k' = (if b = a \<and> k' = k then Some v else dict_lookup h b k')"
  by (simp add: dict_lookup_def dict_store_def update_conv')

lemma set_cfg2_result:
  "set_cfg2 a b v s = (s', r) \<Longrightarrow>
     s' = s \<or> (\<exists>x. s' = s\<lparr>heap := dict_store (heap s) x b v\<rparr>)"
  unfolding set_cfg2_def eval_def
  by (auto split: sum.splits elim!: py_setitem.elims)

lemma preserves_set_cfg2:
  assumes "b \<noteq> ''training''" "b \<noteq> ''log.results''"
  shows "preserves (no_results_log a t) (set_cfg2 sec b v)"
proof (rule preservesI)
  fix s s' r
  assume I: "no_results_log a t s" and run: "set_cfg2 sec b v s = (s', r)"
  from set_cfg2_result [OF run] show "no_results_log a t s'"
  proof
    assume "s' = s"
    with I show ?thesis by simp
  next
    assume "\<exists>x. s' = s\<lparr>heap := dict_store (heap s) x b v\<rparr>"
    then obtain x where "s' = s\<lparr>heap := dict_store (heap s) x b v\<rparr>" ..
    with I assms show ?thesis by (simp add: no_results_log_def)
  qed
qed

lemmas preserves_intros =
  preserves_eval preserves_emit preserves_skip preserves_steps preserves_cond
  preserves_set_cfg2 preserves_raise preserves_seq preserves_call preserves_state_emit
  preserves_state_cond

lemma preserves_check_training: "preserves (no_results_log a t) check_training"
  unfolding check_training_def by (auto intro!: preserves_intros)

lemma preserves_set_seed: "preserves (no_results_log a t) set_seed"
  unfolding set_seed_def by (auto intro!: preserves_intros)

lemma preserves_setup_logger: "preserves (no_results_log a t) setup_logger"
  unfolding setup_logger_def by (auto intro!: preserves_intros)

lemma setup_results_logger_absent:
  assumes "no_results_log a t s"
  shows "setup_results_logger s = (s, None)"
  using assms
  by (simp add: setup_results_logger_def eval_def cfg_def no_results_log_def skip_def)

lemma preserves_setup_results_logger: "preserves (no_results_log a t) setup_results_logger"
proof (rule preservesI)
  fix s s' r
  assume I: "no_results_log a t s" and run: "setup_results_logger s = (s', r)"
  from setup_results_logger_absent [OF I] run have "s' = s" by simp
  with I show "no_results_log a t s'" by simp
qed

lemma preserves_set_max_entity_options: "preserves (no_results_log a t) set_max_entity_options"
  unfolding set_max_entity_options_def by (auto intro!: preserves_intros)

lemma preserves_load_dataset: "preserves (no_results_log a t) load_dataset"
  unfolding load_dataset_def by (auto intro!: preserves_intros)

lemma preserves_set_samples_per_epoch: "preserves (no_results_log a t) (set_samples_per_epoch e)"
  unfolding set_samples_per_epoch_def by (auto intro!: preserves_intros)

lemma preserves_set_graph_choices: "preserves (no_results_log a t) set_graph_choices"
  unfolding set_graph_choices_def by (auto intro!: preserves_intros)

lemma preserves_prepare_model: "preserves (no_results_log a t) (prepare_model c)"
  unfolding prepare_model_def by (auto intro!: preserves_intros)

lemma preserves_construct_model: "preserves (no_results_log a t) (construct_model e)"
  unfolding construct_model_def
  by (auto intro!: preserves_intros preserves_prepare_model split: yaml.splits option.splits)

lemma preserves_train_model: "preserves (no_results_log a t) train_model"
  unfolding train_model_def validation_samples_def by (auto intro!: preserves_intros)

lemma preserves_silver_test_set: "preserves (no_results_log a t) silver_test_set"
  unfolding silver_test_set_def by (auto intro!: preserves_intros)

lemma preserves_test_on_silver: "preserves (no_results_log a t) test_on_silver"
  unfolding test_on_silver_def by (auto intro!: preserves_intros)

lemma preserves_before_dump:
  "preserves (no_results_log a t) (steps (check_training # until_silver e))"
  unfolding until_silver_def
  by (intro preserves_steps)
    (simp add: preserves_check_training preserves_set_seed preserves_setup_logger
      preserves_setup_results_logger preserves_set_max_entity_options
      preserves_load_dataset preserves_set_samples_per_epoch preserves_set_graph_choices
      preserves_construct_model preserves_train_model
      preserves_silver_test_set preserves_test_on_silver)

lemma dump_silver_predictions_absent:
  assumes "no_results_log a t s"
  shows "dump_silver_predictions s = (s, Some (KeyError ''log.results''))"
  using assms
  by (simp add: dump_silver_predictions_def eval_def cfg2_def cfg_def bind_err_def
      no_results_log_def)

lemma test_on_silver_run:
  "test_on_silver s = (s\<lparr>trace := trace s @ [TestOnSilver, Print ''Accuracy on silver data: {}'']\<rparr>, None)"
  by (simp add: test_on_silver_def seq_def emit_def skip_def)

text \<open>
  Claim C10. For a configuration whose \<open>training\<close> section is a dictionary without
  the entry \<open>log.results\<close>, no run of \<open>train\<close> completes and none creates the
  results logger; and whenever the statements up to the silver evaluation go through,
  the run ends right after it, at line 71, with \<open>KeyError\<close> for \<open>log.results\<close>:
  the last events are the silver test and the print of its accuracy.
\<close>

theorem log_results_required:
  assumes "dict_lookup h a ''training'' = Some (YDict t)"
    and "dict_lookup h t ''log.results'' = None"
  shows "snd (train e h (YDict a)) \<noteq> None
     \<and> (\<forall>s. steps (check_training # until_silver e) (start h (YDict a)) = (s, None) \<longrightarrow>
            train e h (YDict a) = (s, Some (KeyError ''log.results''))
          \<and> \<not> results_logger s
          \<and> (\<exists>es. trace s = es @ [TestOnSilver, Print ''Accuracy on silver data: {}'']))"
proof -
  let ?c = "YDict a"
  let ?pre = "check_training # until_silver e"
  have I0: "no_results_log a t (start h ?c)"
    using assms by (simp add: no_results_log_def start_def)
  have split: "train e h ?c = seq (steps ?pre) (steps (after_silver e)) (start h ?c)"
    using steps_append [of ?pre "after_silver e" "start h ?c"] by (simp add: train_def)
  have fails: "train e h ?c = (s, Some (KeyError ''log.results'')) \<and> \<not> results_logger s"
    if pre: "steps ?pre (start h ?c) = (s, None)" for s
  proof -
    from preserves_before_dump I0 pre have I: "no_results_log a t s"
      by (rule preservesD)
    have "steps (after_silver e) s = (s, Some (KeyError ''log.results''))"
      by (simp add: after_silver_def seq_Some dump_silver_predictions_absent [OF I])
    with pre split I show ?thesis by (simp add: seq_None no_results_log_def)
  qed
  have silver: "\<exists>es. trace s = es @ [TestOnSilver, Print ''Accuracy on silver data: {}'']"
    if pre: "steps ?pre (start h ?c) = (s, None)" for s
  proof -
    let ?front = "check_training #
      [set_seed, setup_logger, setup_results_logger, set_max_entity_options, load_dataset,
       set_samples_per_epoch e, set_graph_choices, construct_model e,
       train_model, silver_test_set]"
    have "?pre = ?front @ [test_on_silver]" by (simp add: until_silver_def)
    then have eq: "steps ?pre (start h ?c) = seq (steps ?front) (steps [test_on_silver]) (start h ?c)"
      using steps_append [of ?front "[test_on_silver]" "start h ?c"] by simp
    obtain s0 r0 where s0: "steps ?front (start h ?c) = (s0, r0)"
      by (cases "steps ?front (start h ?c)")
    show ?thesis
    proof (cases r0)
      case None
      with s0 eq pre have "steps [test_on_silver] s0 = (s, None)" by (simp add: seq_None)
      then have "s = s0\<lparr>trace := trace s0 @ [TestOnSilver, Print ''Accuracy on silver data: {}'']\<rparr>"
        by (simp add: seq_def skip_def test_on_silver_run)
      then show ?thesis by simp
    next
      case (Some x)
      with s0 eq pre show ?thesis by (simp add: seq_Some)
    qed
  qed
  have "snd (train e h ?c) \<noteq> None"
  proof -
    obtain s r where sr: "steps ?pre (start h ?c) = (s, r)" by (cases "steps ?pre (start h ?c)")
    show ?thesis
    proof (cases r)
      case None
      with sr fails [of s] show ?thesis by simp
    next
      case (Some x)
      with sr split show ?thesis by (simp add: seq_Some)
    qed
  qed
  with fails silver show ?thesis by blast
qed

lemma dict_lookup_heap_of:
  "dict_lookup (heap_of ds) a k = (case map_of ds a of None \<Rightarrow> None | Some kvs \<Rightarrow> map_of kvs k)"
  by (simp add: dict_lookup_def heap_of_def split: option.splits)

lemmas driver_defs =
  check_training_def set_seed_def setup_logger_def setup_results_logger_def
  set_max_entity_options_def load_dataset_def set_samples_per_epoch_def set_graph_choices_def
  construct_model_def prepare_model_def train_model_def validation_samples_def
  silver_test_set_def test_on_silver_def dump_silver_predictions_def log_silver_def
  evaluate_on_wikidata_def until_silver_def after_silver_def start_def
  seq_def eval_def emit_def skip_def raise_def call_def cfg_def cfg2_def get_def set_cfg2_def
  has_validation_def random_seed_def class_of_def bind_err_def dict_get_def dict_lookup_heap_of
  level_names_def in_seed_range_def

theorem log_results_required_witness:
  "train \<lparr>models = [''SomeModel'' \<mapsto> \<lparr>is_keras_model = True, takes_property_set = True\<rparr>],
          train_sample_size = YInt 100, validation_size = 0\<rparr>
     (heap_of
       [(0, [(''training'', YDict 1), (''logger'', YDict 2), (''evaluation'', YDict 3),
             (''webquestions'', YDict 4), (''model'', YDict 5)]),
        (2, [(''level'', YStr ''INFO'')]),
        (4, [(''path.to.dataset'', YDict 6)]),
        (5, [(''class'', YStr ''SomeModel'')])])
     (YDict 0) =
   (\<lparr>config = YDict 0,
      heap =
        configured
          \<lparr>models = [''SomeModel'' \<mapsto> \<lparr>is_keras_model = True, takes_property_set = True\<rparr>],
             train_sample_size = YInt 100, validation_size = 0\<rparr>
          (heap_of
            [(0, [(''training'', YDict 1), (''logger'', YDict 2), (''evaluation'', YDict 3),
                  (''webquestions'', YDict 4), (''model'', YDict 5)]),
             (2, [(''level'', YStr ''INFO'')]),
             (4, [(''path.to.dataset'', YDict 6)]),
             (5, [(''class'', YStr ''SomeModel'')])])
          3 4 5,
      trace =
        [NpRandomSeed (YInt 1), LoggerSetLevel (YStr ''INFO''), LoggerSetLevel (YStr ''INFO''),
         LoggerDebug, WebQuestions (YDict 4), GetTrainSampleSize,
         ModelInit ''SomeModel'' (YDict 5),
         GetTrainingTokens, GetPropertySet, PrepareModel, GetTrainingSamples, Train False,
         GetFullTraining, TestOnSilver, Print ''Accuracy on silver data: {}''],
      results_logger = False\<rparr>,
    Some (KeyError ''log.results''))"
proof -
  let ?e = "\<lparr>models = [''SomeModel'' \<mapsto> \<lparr>is_keras_model = True, takes_property_set = True\<rparr>],
          train_sample_size = YInt 100, validation_size = 0\<rparr>"
  let ?h = "heap_of
       [(0, [(''training'', YDict 1), (''logger'', YDict 2), (''evaluation'', YDict 3),
             (''webquestions'', YDict 4), (''model'', YDict 5)]),
        (2, [(''level'', YStr ''INFO'')]),
        (4, [(''path.to.dataset'', YDict 6)]),
        (5, [(''class'', YStr ''SomeModel'')])]"
  have a: "dict_lookup ?h 0 ''training'' = Some (YDict 1)"
    by (simp add: dict_lookup_heap_of)
  have b: "dict_lookup ?h 1 ''log.results'' = None"
    by (simp add: dict_lookup_heap_of)
  have run: "steps (check_training # until_silver ?e) (start ?h (YDict 0)) =
   (\<lparr>config = YDict 0,
      heap = configured ?e ?h 3 4 5,
      trace =
        [NpRandomSeed (YInt 1), LoggerSetLevel (YStr ''INFO''), LoggerSetLevel (YStr ''INFO''),
         LoggerDebug, WebQuestions (YDict 4), GetTrainSampleSize,
         ModelInit ''SomeModel'' (YDict 5),
         GetTrainingTokens, GetPropertySet, PrepareModel, GetTrainingSamples, Train False,
         GetFullTraining, TestOnSilver, Print ''Accuracy on silver data: {}''],
      results_logger = False\<rparr>,
    None)"
    by (simp add: driver_defs configured_def)
  from log_results_required [OF a b, of ?e] run show ?thesis by blast
qed

text \<open>
  The claim as it is written fails: a configuration that has a \<open>training\<close> section
  without \<open>log.results\<close>, and nothing else, does not fail at line 71. The run ends at
  line 33 with \<open>KeyError\<close> for \<open>logger\<close>, before any dataset or model exists.
\<close>

theorem log_results_required_counterexample:
  "dict_lookup (heap_of [(0, [(''training'', YDict 1)])]) 0 ''training'' = Some (YDict 1)
   \<and> dict_lookup (heap_of [(0, [(''training'', YDict 1)])]) 1 ''log.results'' = None
   \<and> train \<lparr>models = Map.empty, train_sample_size = YInt 0, validation_size = 0\<rparr>
        (heap_of [(0, [(''training'', YDict 1)])]) (YDict 0) =
      (\<lparr>config = YDict 0, heap = heap_of [(0, [(''training'', YDict 1)])],
         trace = [NpRandomSeed (YInt 1)], results_logger = False\<rparr>,
       Some (KeyError ''logger''))
   \<and> KeyError ''logger'' \<noteq> KeyError ''log.results''"
  by (simp add: train_def driver_defs)

subsection \<open>A complete run\<close>

lemma dict_get_store [simp]:
  "dict_get (dict_store h a k v) b k' d = (if b = a \<and> k' = k then v else dict_get h b k' d)"
  by (simp add: dict_get_def)




lemma trace_update_reads [simp]:
  "cfg a (s\<lparr>trace := t\<rparr>) = cfg a s"
  "cfg2 a b (s\<lparr>trace := t\<rparr>) = cfg2 a b s"
  "get v k d (s\<lparr>trace := t\<rparr>) = get v k d s"
  "has_validation (s\<lparr>trace := t\<rparr>) = has_validation s"
  by (simp_all add: cfg_def cfg2_def get_def has_validation_def)









section \<open>Properties of the vocabularies\<close>

lemma update_fresh: "k \<notin> fst ` set al \<Longrightarrow> AList.update k v al = al @ [(k, v)]"
  by (induction al) auto

lemma foldl_update_distinct:
  "distinct (map fst (acc @ kvs)) \<Longrightarrow>
     foldl (\<lambda>d (k, v). AList.update k v d) acc kvs = acc @ kvs"
proof (induction kvs arbitrary: acc)
  case Nil
  show ?case by simp
next
  case (Cons kv kvs)
  obtain k v where kv: "kv = (k, v)" by (cases kv)
  from Cons.prems kv have fresh: "k \<notin> fst ` set acc" by auto
  from Cons.prems kv have "distinct (map fst ((acc @ [(k, v)]) @ kvs))" by auto
  from Cons.IH [OF this] show ?case
    by (simp add: kv update_fresh [OF fresh])
qed

lemma dict_of_items_distinct: "distinct (map fst kvs) \<Longrightarrow> dict_of_items kvs = kvs"
  unfolding dict_of_items_def using foldl_update_distinct [of "[]" kvs] by simp

lemma load_dump: "json_stable v \<Longrightarrow> load (dump v) = v"
proof (induction v)
  case (PyList xs)
  then have "map (load \<circ> dump) xs = xs"
    by (intro map_idI) (auto simp: list_all_iff)
  then show ?case by simp
next
  case (PyDict kvs)
  have "map (map_prod id load \<circ> map_prod id dump) kvs = kvs"
  proof (intro map_idI)
    fix kv assume kv: "kv \<in> set kvs"
    obtain k v where e: "kv = (k, v)" by (cases kv)
    with kv PyDict.prems have "json_stable v" by (force simp: list_all_iff)
    with PyDict.IH kv e have "load (dump v) = v" by auto
    with e show "(map_prod id load \<circ> map_prod id dump) kv = kv" by simp
  qed
  moreover have "distinct (map fst kvs)" using PyDict.prems by simp
  ultimately show ?case by (simp add: dict_of_items_distinct)
qed simp_all

lemma load_dump_index:
  assumes "c = PyDict kvs \<or> c = PyDefaultDict kvs" "json_stable (PyDict kvs)"
  shows "load (dump c) = PyDict kvs"
proof -
  have "dump c = dump (PyDict kvs)" using assms(1) by auto
  with load_dump [OF assms(2)] show ?thesis by simp
qed

lemma py_tuple_load_dump:
  assumes "is_trigram t"
  shows "py_tuple (load (dump t)) = Inr t"
proof -
  from assms obtain cs where t: "t = PyTuple cs"
    and cs: "list_all (\<lambda>c. case c of PyStr s \<Rightarrow> True | _ \<Rightarrow> False) cs"
    by (cases t) auto
  have "map (load \<circ> dump) cs = cs"
  proof (intro map_idI)
    fix c assume "c \<in> set cs"
    with cs obtain s where "c = PyStr s" by (cases c) (auto simp: list_all_iff)
    then show "(load \<circ> dump) c = c" by simp
  qed
  then show ?thesis by (simp add: t py_tuple_def bind_err_def)
qed

lemma tuples_load_dump:
  assumes "list_all is_trigram ts"
  shows "bind_err (py_iter (load (dump (PyList ts)))) (\<lambda>xs. sequence_err (map py_tuple xs)) = Inr ts"
proof -
  have "sequence_err (map (\<lambda>t. py_tuple (load (dump t))) ts) = Inr (map (\<lambda>t. t) ts)"
    using assms by (intro sequence_err_map) (auto simp: list_all_iff py_tuple_load_dump)
  then show ?thesis by (simp add: bind_err_def comp_def)
qed

lemma CharCNN_round_trip:
  assumes fresh: "py_not (self_character2idx m)"
    and index: "get_character_index (map (join '' '') train_tokens) = c"
      "c = PyDict kvs \<or> c = PyDefaultDict kvs" "json_stable (PyDict kvs)"
    and super: "\<And>x. self_character2idx (super_prepare x) = self_character2idx x"
      "\<And>x. self_p (super_prepare x) ''vocab.size'' = self_p x ''vocab.size''"
    and same_path: "vocabulary_path ''character2idx'' (super_load path m2) =
                    vocabulary_path ''character2idx'' m"
  shows "\<exists>fs1 m1 m3.
           CharCNN_prepare_model get_character_index super_prepare train_tokens (fs, m) = Inr (fs1, m1)
         \<and> self_character2idx m1 = c
         \<and> self_p m1 ''vocab.size'' = Some (PInt (int (length kvs)))
         \<and> CharCNN_load_from_file super_load path (fs1, m2) = Inr (fs1, m3)
         \<and> self_character2idx m3 = PyDict kvs
         \<and> py_items (self_character2idx m3) = py_items (self_character2idx m1)
         \<and> self_p m3 ''vocab.size'' = Some (PInt (int (length kvs)))"
proof -
  let ?path = "vocabulary_path ''character2idx'' m"
  let ?fs1 = "fs(?path \<mapsto> dump c)"
  let ?m1 = "super_prepare (m\<lparr>self_character2idx := c,
                 self_p := (self_p m)(''vocab.size'' \<mapsto> PInt (int (length kvs)))\<rparr>)"
  let ?m2 = "super_load path m2"
  let ?m3 = "?m2\<lparr>self_character2idx := PyDict kvs,
                 self_p := (self_p ?m2)(''vocab.size'' \<mapsto> PInt (int (length kvs)))\<rparr>"
  have len: "py_len c = Inr (length kvs)" using index(2) by auto
  have items: "py_items c = kvs" using index(2) by auto
  have restored: "load (dump c) = PyDict kvs" using index(2,3) by (rule load_dump_index)
  have prep: "CharCNN_prepare_model get_character_index super_prepare train_tokens (fs, m) =
                Inr (?fs1, ?m1)"
    using fresh by (simp add: CharCNN_prepare_model_def index(1) len bind_err_def)
  have reload: "CharCNN_load_from_file super_load path (?fs1, m2) = Inr (?fs1, ?m3)"
    by (simp add: CharCNN_load_from_file_def same_path restored bind_err_def Let_def)
  have "self_character2idx ?m1 = c" by (simp add: super(1))
  moreover have "self_p ?m1 ''vocab.size'' = Some (PInt (int (length kvs)))"
    by (simp add: super(2))
  moreover have "self_character2idx ?m3 = PyDict kvs" by simp
  moreover have "py_items (self_character2idx ?m3) = py_items (self_character2idx ?m1)"
    by (simp add: super(1) items)
  moreover have "self_p ?m3 ''vocab.size'' = Some (PInt (int (length kvs)))" by simp
  ultimately show ?thesis using prep reload by (intro exI conjI)
qed

lemma Yih_round_trip:
  assumes fresh: "py_not (self_trigram_vocabulary y)"
    and trigrams: "\<And>token. list_all is_trigram (string_to_trigrams token)"
    and order: "iterates_sets set_order"
    and ts: "ts = set_order (concat (map string_to_trigrams (concat train_tokens)))"
    and super: "\<And>x. self_trigram_vocabulary (super_prepare x) = self_trigram_vocabulary x"
      "\<And>x. self_p (super_prepare x) ''vocab.size'' = self_p x ''vocab.size''"
    and same_path: "vocabulary_path ''trigram_vocabulary'' (super_load path y2) =
                    vocabulary_path ''trigram_vocabulary'' y"
  shows "\<exists>fs1 y1 y3.
           Yih_prepare_model set_order string_to_trigrams super_prepare train_tokens (fs, y) =
             Inr (fs1, y1)
         \<and> self_trigram_vocabulary y1 = PyList ts
         \<and> self_p y1 ''vocab.size'' = Some (PInt (int (length ts)))
         \<and> Yih_load_from_file super_load path (fs1, y2) = Inr (fs1, y3)
         \<and> self_trigram_vocabulary y3 = self_trigram_vocabulary y1
         \<and> self_p y3 ''vocab.size'' = Some (PInt (int (length ts)))"
proof -
  let ?path = "vocabulary_path ''trigram_vocabulary'' y"
  let ?fs1 = "fs(?path \<mapsto> dump (PyList ts))"
  let ?y1 = "super_prepare (y\<lparr>self_trigram_vocabulary := PyList ts,
                 self_p := (self_p y)(''vocab.size'' \<mapsto> PInt (int (length ts)))\<rparr>)"
  let ?y2 = "super_load path y2"
  let ?y3 = "?y2\<lparr>self_trigram_vocabulary := PyList ts,
                 self_p := (self_p ?y2)(''vocab.size'' \<mapsto> PInt (int (length ts)))\<rparr>"
  have "set ts = set (concat (map string_to_trigrams (concat train_tokens)))"
    using order by (simp add: ts iterates_sets_def)
  then have tri: "list_all is_trigram ts"
    using trigrams by (auto simp: list_all_iff)
  have prep: "Yih_prepare_model set_order string_to_trigrams super_prepare train_tokens (fs, y) =
                Inr (?fs1, ?y1)"
    using fresh by (simp add: Yih_prepare_model_def ts [symmetric] bind_err_def)
  have restored: "bind_err (py_iter (load (dump (PyList ts)))) (\<lambda>xs. sequence_err (map py_tuple xs)) = Inr ts"
    using tri by (rule tuples_load_dump)
  have reload: "Yih_load_from_file super_load path (?fs1, y2) = Inr (?fs1, ?y3)"
    using restored
    by (auto simp add: Yih_load_from_file_def same_path bind_err_def Let_def split: sum.splits)
  have "self_trigram_vocabulary ?y1 = PyList ts" by (simp add: super(1))
  moreover have "self_p ?y1 ''vocab.size'' = Some (PInt (int (length ts)))"
    by (simp add: super(2))
  moreover have "self_trigram_vocabulary ?y3 = self_trigram_vocabulary ?y1"
    by (simp add: super(1))
  moreover have "self_p ?y3 ''vocab.size'' = Some (PInt (int (length ts)))" by simp
  ultimately show ?thesis using prep reload by (intro exI conjI)
qed

text \<open>
  Claim C4. A fresh \<open>CharCNNModel\<close> whose \<open>prepare_model\<close> builds the vocabulary, a
  dictionary (plain or \<open>defaultdict\<close>) from characters to indices, writes it to its JSON
  artifact and sets \<open>vocab.size\<close> to its length; \<open>load_from_file\<close>, reading the same
  artifact, restores a dictionary with the same items and sets \<open>vocab.size\<close> to the same
  length. A fresh \<open>YihModel\<close> does the same with its list of trigrams, tuples of
  strings: \<open>load_from_file\<close> turns every list of the document back into a tuple and
  restores the same list. The inherited methods leave the vocabulary and \<open>vocab.size\<close>
  as they are.
\<close>

theorem vocabulary_round_trip:
  assumes "py_not (self_character2idx m)"
    and "get_character_index (map (join '' '') train_tokens) = c"
    and "c = PyDict kvs \<or> c = PyDefaultDict kvs" and "json_stable (PyDict kvs)"
    and "\<And>x. self_character2idx (super_c x) = self_character2idx x"
    and "\<And>x. self_p (super_c x) ''vocab.size'' = self_p x ''vocab.size''"
    and "vocabulary_path ''character2idx'' (load_c path m2) = vocabulary_path ''character2idx'' m"
    and "py_not (self_trigram_vocabulary y)"
    and "\<And>token. list_all is_trigram (string_to_trigrams token)"
    and "iterates_sets set_order"
    and "ts = set_order (concat (map string_to_trigrams (concat train_tokens)))"
    and "\<And>x. self_trigram_vocabulary (super_y x) = self_trigram_vocabulary x"
    and "\<And>x. self_p (super_y x) ''vocab.size'' = self_p x ''vocab.size''"
    and "vocabulary_path ''trigram_vocabulary'' (load_y path y2) =
         vocabulary_path ''trigram_vocabulary'' y"
  shows "(\<exists>fs1 m1 m3.
           CharCNN_prepare_model get_character_index super_c train_tokens (fs, m) = Inr (fs1, m1)
         \<and> self_character2idx m1 = c
         \<and> self_p m1 ''vocab.size'' = Some (PInt (int (length kvs)))
         \<and> CharCNN_load_from_file load_c path (fs1, m2) = Inr (fs1, m3)
         \<and> self_character2idx m3 = PyDict kvs
         \<and> py_items (self_character2idx m3) = py_items (self_character2idx m1)
         \<and> self_p m3 ''vocab.size'' = Some (PInt (int (length kvs))))
       \<and> (\<exists>fs1 y1 y3.
           Yih_prepare_model set_order string_to_trigrams super_y train_tokens (fs, y) =
             Inr (fs1, y1)
         \<and> self_trigram_vocabulary y1 = PyList ts
         \<and> self_p y1 ''vocab.size'' = Some (PInt (int (length ts)))
         \<and> Yih_load_from_file load_y path (fs1, y2) = Inr (fs1, y3)
         \<and> self_trigram_vocabulary y3 = self_trigram_vocabulary y1
         \<and> self_p y3 ''vocab.size'' = Some (PInt (int (length ts))))"
proof (rule conjI)
  show "\<exists>fs1 m1 m3.
           CharCNN_prepare_model get_character_index super_c train_tokens (fs, m) = Inr (fs1, m1)
         \<and> self_character2idx m1 = c
         \<and> self_p m1 ''vocab.size'' = Some (PInt (int (length kvs)))
         \<and> CharCNN_load_from_file load_c path (fs1, m2) = Inr (fs1, m3)
         \<and> self_character2idx m3 = PyDict kvs
         \<and> py_items (self_character2idx m3) = py_items (self_character2idx m1)
         \<and> self_p m3 ''vocab.size'' = Some (PInt (int (length kvs)))"
    using assms(1-7) by (rule CharCNN_round_trip)
  show "\<exists>fs1 y1 y3.
           Yih_prepare_model set_order string_to_trigrams super_y train_tokens (fs, y) =
             Inr (fs1, y1)
         \<and> self_trigram_vocabulary y1 = PyList ts
         \<and> self_p y1 ''vocab.size'' = Some (PInt (int (length ts)))
         \<and> Yih_load_from_file load_y path (fs1, y2) = Inr (fs1, y3)
         \<and> self_trigram_vocabulary y3 = self_trigram_vocabulary y1
         \<and> self_p y3 ''vocab.size'' = Some (PInt (int (length ts)))"
    using assms(8-14) by (rule Yih_round_trip)
qed

theorem vocabulary_round_trip_witness:
  "(\<exists>fs1 m1 m3.
      CharCNN_prepare_model (\<lambda>sentences. PyDefaultDict [(''a'', PyInt 1), ('' '', PyInt 2)])
        (\<lambda>x. x) [[''a'', ''a'']] (Map.empty, CharCNN_init Map.empty ''models/'' ''1'') = Inr (fs1, m1)
    \<and> self_character2idx m1 = PyDefaultDict [(''a'', PyInt 1), ('' '', PyInt 2)]
    \<and> self_p m1 ''vocab.size'' = Some (PInt 2)
    \<and> CharCNN_load_from_file (\<lambda>path x. x) ''models/model_1''
          (fs1, CharCNN_init Map.empty ''models/'' ''1'') = Inr (fs1, m3)
    \<and> self_character2idx m3 = PyDict [(''a'', PyInt 1), ('' '', PyInt 2)]
    \<and> py_items (self_character2idx m3) = py_items (self_character2idx m1)
    \<and> self_p m3 ''vocab.size'' = Some (PInt 2))
   \<and> (\<exists>fs1 y1 y3.
      Yih_prepare_model remdups
        (\<lambda>token. [PyTuple [PyStr ''#'', PyStr ''a'', PyStr ''#'']]) (\<lambda>x. x) [[''a'', ''a'']]
        (Map.empty, Yih_init Map.empty ''models/'' ''1'') = Inr (fs1, y1)
    \<and> self_trigram_vocabulary y1 = PyList [PyTuple [PyStr ''#'', PyStr ''a'', PyStr ''#'']]
    \<and> self_p y1 ''vocab.size'' = Some (PInt 1)
    \<and> Yih_load_from_file (\<lambda>path x. x) ''models/model_1''
          (fs1, Yih_init Map.empty ''models/'' ''1'') = Inr (fs1, y3)
    \<and> self_trigram_vocabulary y3 = self_trigram_vocabulary y1
    \<and> self_p y3 ''vocab.size'' = Some (PInt 1))"
proof -
  let ?c = "PyDefaultDict [(''a'', PyInt 1), ('' '', PyInt 2)]"
  let ?m = "CharCNN_init Map.empty ''models/'' ''1''"
  let ?y = "Yih_init Map.empty ''models/'' ''1''"
  let ?tri = "\<lambda>token :: string. [PyTuple [PyStr ''#'', PyStr ''a'', PyStr ''#'']]"
  have h1: "py_not (self_character2idx ?m)" by (simp add: CharCNN_init_def)
  have h3: "?c = PyDict [(''a'', PyInt 1), ('' '', PyInt 2)]
          \<or> ?c = PyDefaultDict [(''a'', PyInt 1), ('' '', PyInt 2)]" by simp
  have h4: "json_stable (PyDict [(''a'', PyInt 1), ('' '', PyInt 2)])" by simp
  have h8: "py_not (self_trigram_vocabulary ?y)" by (simp add: Yih_init_def)
  have h9: "\<And>token. list_all is_trigram (?tri token)" by simp
  have h10: "iterates_sets remdups" by (simp add: iterates_sets_def)
  have h11: "[PyTuple [PyStr ''#'', PyStr ''a'', PyStr ''#'']] =
               remdups (concat (map ?tri (concat [[''a'', ''a'']])))" by simp
  from vocabulary_round_trip
    [of ?m "\<lambda>sentences. ?c" "[[''a'', ''a'']]" ?c "[(''a'', PyInt 1), ('' '', PyInt 2)]"
        "\<lambda>x. x" "\<lambda>path x. x" "''models/model_1''" ?m ?y ?tri remdups
        "[PyTuple [PyStr ''#'', PyStr ''a'', PyStr ''#'']]" "\<lambda>x. x" "\<lambda>path x. x" ?y Map.empty,
     OF h1 refl h3 h4 refl refl refl h8 h9 h10 h11 refl refl refl]
  show ?thesis by simp
qed







end
